theory Spec2Isabelle
  imports Complex_Main "HOL-Library.AList" "HOL-Library.Log_Nat"
begin

section \<open>Python values\<close>

text \<open>
  The dashboards are Python scripts over pandas data frames. The values that reach the
  repository's own functions are modelled by the datatype \<open>pyval\<close>.

  A Python \<^verbatim>\<open>float\<close> is \<open>pyfloat\<close>: a finite value, the two infinities, or NaN. A
  finite value is carried as the real number it denotes. The special values behave as in
  Python: every comparison with NaN is false, arithmetic propagates NaN, \<^verbatim>\<open>int(nan)\<close>
  raises \<^verbatim>\<open>ValueError\<close>, \<^verbatim>\<open>int(inf)\<close> raises \<^verbatim>\<open>OverflowError\<close>, \<^verbatim>\<open>math.sin(inf)\<close> raises
  \<^verbatim>\<open>ValueError\<close>. The two zeros are one value: no operator the scripts use tells them apart.

  A category and a glyph can hang on the last bit of a float, so the classifier and the
  glyph index are modelled bit for bit: a decimal literal denotes the nearest binary64
  value, and \<^verbatim>\<open>%\<close>, \<^verbatim>\<open>/\<close> and \<^verbatim>\<open>+\<close> of the glyph index return the correctly rounded result
  (subsection "Binary64 rounding"). The wind vector and the text size are products and
  sums that no comparison follows; their arithmetic (\<^verbatim>\<open>radians\<close>, \<^verbatim>\<open>sin\<close>, \<^verbatim>\<open>cos\<close>, \<^verbatim>\<open>*\<close>, \<^verbatim>\<open>+\<close>)
  is kept over the reals, so what is proved of them is proved of the formula and holds of
  the floats up to rounding error.

  A Python \<^verbatim>\<open>str\<close> is the list of its code points, so each arrow glyph
  (\<^verbatim>\<open>'\u2191'\<close> and the like) is a one-element list.
\<close>

datatype pyfloat = Fin real | PInf | NInf | NaN

record date =
  year :: int
  month :: nat
  day :: nat

record timestamp =
  on_date :: date
  nanos :: nat

datatype pyval =
    PyFloat pyfloat
  | PyInt int
  | PyStr "nat list"
  | PyNone
  | PyDate date
  | PyTimestamp timestamp
  | PyNaT
  | PyList "pyval list"
  | PyTuple "pyval list"

datatype error =
    TypeError | ValueError | OverflowError | ZeroDivisionError
  | KeyError | AttributeError | IndexError | NameError

text \<open>Sequencing of computations that may raise: the first exception ends the chain.\<close>

definition and_then :: "error + 'a \<Rightarrow> ('a \<Rightarrow> error + 'b) \<Rightarrow> error + 'b" where
  "and_then r f = (case r of Inl e \<Rightarrow> Inl e | Inr x \<Rightarrow> f x)"

subsection \<open>Binary64 rounding\<close>

text \<open>
  A finite binary64 value is a real \<open>m * 2 ^ e\<close> with \<open>\<bar>m\<bar> < 2 ^ 53\<close> and \<open>- 1074 \<le> e\<close>, below
  \<open>2 ^ 1024\<close> in magnitude. For a real \<open>x\<close> with \<open>2 ^ k \<le> \<bar>x\<bar> < 2 ^ (k + 1)\<close> the values next to
  \<open>x\<close> are the multiples of \<open>2 ^ (k - 52)\<close>, or of \<open>2 ^ - 1074\<close> in the subnormal range.
  \<open>binary64 x\<close> is the nearest of them, a tie going to the even multiple; \<open>to_float\<close> turns
  a result of magnitude \<open>2 ^ 1024\<close> or more into an infinity. This is the value a decimal
  literal denotes, and the result of every IEEE operation of the exact value \<open>x\<close>.
\<close>

definition half_even :: "real \<Rightarrow> int" where
  "half_even t =
     (if t - of_int \<lfloor>t\<rfloor> < 1 / 2 then \<lfloor>t\<rfloor>
      else if 1 / 2 < t - of_int \<lfloor>t\<rfloor> then \<lfloor>t\<rfloor> + 1
      else if even \<lfloor>t\<rfloor> then \<lfloor>t\<rfloor>
      else \<lfloor>t\<rfloor> + 1)"

text \<open>
  \<open>binade x\<close> is the exponent \<open>k\<close> with \<open>2 ^ k \<le> \<bar>x\<bar> < 2 ^ (k + 1)\<close> (lemmas \<open>binade_bounds\<close> and
  \<open>binade_eq\<close>), read off the bit length of the integer part of \<open>\<bar>x\<bar>\<close>, or of \<open>1 / \<bar>x\<bar>\<close>
  when \<open>\<bar>x\<bar>\<close> is below 1.
\<close>

definition binade :: "real \<Rightarrow> int" where
  "binade x =
     (if 1 \<le> \<bar>x\<bar> then bitlen \<lfloor>\<bar>x\<bar>\<rfloor> - 1
      else - bitlen (\<lceil>1 / \<bar>x\<bar>\<rceil> - 1))"

definition ulp_exponent :: "real \<Rightarrow> int" where
  "ulp_exponent x = max (binade x) (- 1022) - 52"

definition binary64 :: "real \<Rightarrow> real" where
  "binary64 x =
     (if x = 0 then 0
      else of_int (half_even (x / 2 powi ulp_exponent x)) * 2 powi ulp_exponent x)"

definition to_float :: "real \<Rightarrow> pyfloat" where
  "to_float x =
     (if 2 ^ 1024 \<le> binary64 x then PInf
      else if binary64 x \<le> - (2 ^ 1024) then NInf
      else Fin (binary64 x))"

subsection \<open>Float arithmetic\<close>

fun fgt :: "pyfloat \<Rightarrow> real \<Rightarrow> bool" where
  "fgt (Fin x) c = (c < x)"
| "fgt PInf c = True"
| "fgt NInf c = False"
| "fgt NaN c = False"

fun fsgn :: "pyfloat \<Rightarrow> real" where
  "fsgn (Fin x) = sgn x"
| "fsgn PInf = 1"
| "fsgn NInf = - 1"
| "fsgn NaN = 0"

definition signed_inf :: "real \<Rightarrow> pyfloat" where
  "signed_inf s = (if s = 0 then NaN else if 0 < s then PInf else NInf)"

text \<open>The product and the sum of the wind vector and of the text size, over the reals.\<close>

fun fmul :: "pyfloat \<Rightarrow> pyfloat \<Rightarrow> pyfloat" where
  "fmul (Fin x) (Fin y) = Fin (x * y)"
| "fmul NaN b = NaN"
| "fmul a NaN = NaN"
| "fmul a b = signed_inf (fsgn a * fsgn b)"

fun fadd :: "pyfloat \<Rightarrow> pyfloat \<Rightarrow> pyfloat" where
  "fadd (Fin x) (Fin y) = Fin (x + y)"
| "fadd NaN b = NaN"
| "fadd a NaN = NaN"
| "fadd PInf NInf = NaN"
| "fadd NInf PInf = NaN"
| "fadd PInf b = PInf"
| "fadd a PInf = PInf"
| "fadd NInf b = NInf"
| "fadd a NInf = NInf"

text \<open>
  The operations of the glyph index, correctly rounded. \<^verbatim>\<open>x + c\<close> and \<^verbatim>\<open>x / c\<close> are for a
  finite float \<open>c\<close> on the right (\<open>c\<close> not zero for the division, which raises there).
\<close>

fun fadd_const :: "pyfloat \<Rightarrow> real \<Rightarrow> pyfloat" where
  "fadd_const (Fin x) c = to_float (x + c)"
| "fadd_const PInf c = PInf"
| "fadd_const NInf c = NInf"
| "fadd_const NaN c = NaN"

fun fdiv :: "pyfloat \<Rightarrow> real \<Rightarrow> pyfloat" where
  "fdiv (Fin x) c = to_float (x / c)"
| "fdiv PInf c = (if 0 < c then PInf else NInf)"
| "fdiv NInf c = (if 0 < c then NInf else PInf)"
| "fdiv NaN c = NaN"

text \<open>Rounding towards zero: \<^verbatim>\<open>int(x)\<close> on a float, and the quotient inside C's \<^verbatim>\<open>fmod\<close>.\<close>

definition toward_zero :: "real \<Rightarrow> int" where
  "toward_zero t = (if 0 \<le> t then \<lfloor>t\<rfloor> else \<lceil>t\<rceil>)"

text \<open>
  \<^verbatim>\<open>x % m\<close> for a finite float \<open>m\<close> other than zero, as CPython's \<^verbatim>\<open>float_rem\<close> computes it:
  \<^verbatim>\<open>
  mod = fmod(vx, wx);
  if (mod) {
      /* ensure the remainder has the same sign as the denominator */
      if ((wx < 0) != (mod < 0)) {
          mod += wx;
      }
  }
  \<close>
  C's \<^verbatim>\<open>fmod\<close> is exact: it returns \<open>x - n * m\<close> for the quotient \<open>n\<close> truncated towards
  zero, which is a binary64 value with the sign of \<open>x\<close>. The sum \<^verbatim>\<open>mod += wx\<close> is rounded, so
  a small negative \<open>x\<close> gives \<open>m\<close> itself: \<^verbatim>\<open>(-1e-20) % 360\<close> is \<^verbatim>\<open>360.0\<close>.
\<close>

fun fmod :: "pyfloat \<Rightarrow> real \<Rightarrow> pyfloat" where
  "fmod (Fin x) m =
     (let r = x - of_int (toward_zero (x / m)) * m in
      if r \<noteq> 0 \<and> (m < 0) \<noteq> (r < 0) then to_float (r + m) else Fin r)"
| "fmod PInf m = NaN"
| "fmod NInf m = NaN"
| "fmod NaN m = NaN"

subsection \<open>Operators on Python values\<close>

text \<open>
  The numeric value of an operand; anything that is not a number raises \<^verbatim>\<open>TypeError\<close>.
  Python compares an \<^verbatim>\<open>int\<close> with a \<^verbatim>\<open>float\<close> by value, without converting it.
\<close>

fun num :: "pyval \<Rightarrow> error + pyfloat" where
  "num (PyFloat f) = Inr f"
| "num (PyInt i) = Inr (Fin (of_int i))"
| "num v = Inl TypeError"

text \<open>
  In \<^verbatim>\<open>%\<close> and \<^verbatim>\<open>/\<close> with a \<^verbatim>\<open>float\<close> on the other side an \<^verbatim>\<open>int\<close> is converted first, to the
  nearest binary64 value; one too large for a float raises \<^verbatim>\<open>OverflowError\<close>.
\<close>

definition int_to_float :: "int \<Rightarrow> error + real" where
  "int_to_float i = (case to_float (of_int i) of Fin y \<Rightarrow> Inr y | _ \<Rightarrow> Inl OverflowError)"

fun operand :: "pyval \<Rightarrow> error + pyfloat" where
  "operand (PyFloat f) = Inr f"
| "operand (PyInt i) = and_then (int_to_float i) (\<lambda>y. Inr (Fin y))"
| "operand v = Inl TypeError"

definition py_gt :: "pyval \<Rightarrow> real \<Rightarrow> error + bool" where
  "py_gt v c = and_then (num v) (\<lambda>f. Inr (fgt f c))"

text \<open>
  \<^verbatim>\<open>v % m\<close> for an \<^verbatim>\<open>int\<close> literal \<open>m\<close>: the float remainder of a \<^verbatim>\<open>float\<close>, with \<open>m\<close> converted,
  and the floored remainder of an \<^verbatim>\<open>int\<close>. On a \<^verbatim>\<open>str\<close> the operator is string formatting,
  which raises unless the string holds a conversion; in that case the string it returns
  fails with \<^verbatim>\<open>TypeError\<close> at the next arithmetic operator, so the model raises at once.
  The only caller catches every exception, whatever its class.
\<close>

fun py_mod :: "pyval \<Rightarrow> int \<Rightarrow> error + pyval" where
  "py_mod (PyFloat f) m =
     and_then (int_to_float m) (\<lambda>y.
       if y = 0 then Inl ZeroDivisionError else Inr (PyFloat (fmod f y)))"
| "py_mod (PyInt i) m =
     (if m = 0 then Inl ZeroDivisionError else Inr (PyInt (i mod m)))"
| "py_mod v m = Inl TypeError"

text \<open>\<^verbatim>\<open>v / c\<close> for a \<^verbatim>\<open>float\<close> literal \<open>c\<close>.\<close>

definition py_truediv :: "pyval \<Rightarrow> real \<Rightarrow> error + pyfloat" where
  "py_truediv v c =
     and_then (operand v) (\<lambda>f. if c = 0 then Inl ZeroDivisionError else Inr (fdiv f c))"

text \<open>\<^verbatim>\<open>int(x)\<close> on a float truncates towards zero.\<close>

fun float_int :: "pyfloat \<Rightarrow> error + int" where
  "float_int (Fin x) = Inr (toward_zero x)"
| "float_int NaN = Inl ValueError"
| "float_int PInf = Inl OverflowError"
| "float_int NInf = Inl OverflowError"

text \<open>List indexing: a negative index counts from the end, out of range raises.\<close>

definition py_index :: "'a list \<Rightarrow> int \<Rightarrow> error + 'a" where
  "py_index xs i =
     (if 0 \<le> i \<and> i < int (length xs) then Inr (xs ! nat i)
      else if i < 0 \<and> - int (length xs) \<le> i then Inr (xs ! nat (int (length xs) + i))
      else Inl IndexError)"

subsection \<open>The math and numpy functions the scripts call\<close>

fun fradians :: "pyfloat \<Rightarrow> pyfloat" where
  "fradians (Fin x) = Fin (x * pi / 180)"
| "fradians PInf = PInf"
| "fradians NInf = NInf"
| "fradians NaN = NaN"

definition math_radians :: "pyval \<Rightarrow> error + pyfloat" where
  "math_radians v = and_then (num v) (\<lambda>f. Inr (fradians f))"

fun math_sin :: "pyfloat \<Rightarrow> error + pyfloat" where
  "math_sin (Fin x) = Inr (Fin (sin x))"
| "math_sin NaN = Inr NaN"
| "math_sin PInf = Inl ValueError"
| "math_sin NInf = Inl ValueError"

fun math_cos :: "pyfloat \<Rightarrow> error + pyfloat" where
  "math_cos (Fin x) = Inr (Fin (cos x))"
| "math_cos NaN = Inr NaN"
| "math_cos PInf = Inl ValueError"
| "math_cos NInf = Inl ValueError"

fun np_sin :: "pyfloat \<Rightarrow> pyfloat" where
  "np_sin (Fin x) = Fin (sin x)"
| "np_sin PInf = NaN"
| "np_sin NInf = NaN"
| "np_sin NaN = NaN"

fun np_cos :: "pyfloat \<Rightarrow> pyfloat" where
  "np_cos (Fin x) = Fin (cos x)"
| "np_cos PInf = NaN"
| "np_cos NInf = NaN"
| "np_cos NaN = NaN"

section \<open>The health classifier\<close>

text \<open>
  \<^verbatim>\<open>ndvi_color\<close> of \<^verbatim>\<open>app.py\<close>, \<^verbatim>\<open>app_weather.py\<close>, \<^verbatim>\<open>app_wind.py\<close>, \<^verbatim>\<open>app_wind_icon.py\<close>
  and \<^verbatim>\<open>app_wind_text.py\<close> (the five copies differ in comments only):
  \<^verbatim>\<open>
  def ndvi_color(n):
      if n > 0.6:
          return [0, 128, 0]  # green
      elif n > 0.4:
          return [255, 165, 0]  # orange
      else:
          return [255, 0, 0]  # red
  \<close>
\<close>

definition ndvi_color :: "pyval \<Rightarrow> error + pyval" where
  "ndvi_color n =
     and_then (py_gt n (binary64 0.6)) (\<lambda>above.
       if above then Inr (PyList [PyInt 0, PyInt 128, PyInt 0])
       else and_then (py_gt n (binary64 0.4)) (\<lambda>above.
         if above then Inr (PyList [PyInt 255, PyInt 165, PyInt 0])
         else Inr (PyList [PyInt 255, PyInt 0, PyInt 0])))"

text \<open>
  \<^verbatim>\<open>ndvi_color\<close> of \<^verbatim>\<open>app_wind_static.py\<close>, which feeds matplotlib:
  \<^verbatim>\<open>
  def ndvi_color(value):
      if value > 0.6:
          return (0.0, 0.8, 0.0)  # green
      elif value > 0.4:
          return (1.0, 0.65, 0.0)  # orange
      else:
          return (1.0, 0.0, 0.0)  # red
  \<close>
\<close>

definition ndvi_color_static :: "pyval \<Rightarrow> error + pyval" where
  "ndvi_color_static v =
     and_then (py_gt v (binary64 0.6)) (\<lambda>above.
       if above then
         Inr (PyTuple [PyFloat (Fin 0.0), PyFloat (Fin (binary64 0.8)), PyFloat (Fin 0.0)])
       else and_then (py_gt v (binary64 0.4)) (\<lambda>above.
         if above then
           Inr (PyTuple [PyFloat (Fin 1.0), PyFloat (Fin (binary64 0.65)), PyFloat (Fin 0.0)])
         else Inr (PyTuple [PyFloat (Fin 1.0), PyFloat (Fin 0.0), PyFloat (Fin 0.0)])))"

text \<open>The six dashboards that classify, and the classifier each of them defines.\<close>

datatype variant =
  App | App_weather | App_wind | App_wind_icon | App_wind_text | App_wind_static

fun ndvi_color_in :: "variant \<Rightarrow> pyval \<Rightarrow> error + pyval" where
  "ndvi_color_in App_wind_static = ndvi_color_static"
| "ndvi_color_in v = ndvi_color"

text \<open>
  The health categories. The dashboards' legend ("green = healthy, orange = moderate,
  red = stressed") and the comments on the three branches give the colour that stands for
  each category in each variant.
\<close>

datatype category = Healthy | Moderate | Stressed

fun category_color :: "variant \<Rightarrow> category \<Rightarrow> pyval" where
  "category_color App_wind_static Healthy =
     PyTuple [PyFloat (Fin 0.0), PyFloat (Fin (binary64 0.8)), PyFloat (Fin 0.0)]"
| "category_color App_wind_static Moderate =
     PyTuple [PyFloat (Fin 1.0), PyFloat (Fin (binary64 0.65)), PyFloat (Fin 0.0)]"
| "category_color App_wind_static Stressed =
     PyTuple [PyFloat (Fin 1.0), PyFloat (Fin 0.0), PyFloat (Fin 0.0)]"
| "category_color v Healthy = PyList [PyInt 0, PyInt 128, PyInt 0]"
| "category_color v Moderate = PyList [PyInt 255, PyInt 165, PyInt 0]"
| "category_color v Stressed = PyList [PyInt 255, PyInt 0, PyInt 0]"

section \<open>The compass-arrow glyph\<close>

text \<open>
  The eight glyphs, by code point: U+2191 (up), U+2197 (up-right), U+2192 (right),
  U+2198 (down-right), U+2193 (down), U+2199 (down-left), U+2190 (left), U+2196 (up-left).
\<close>

abbreviation glyph_up :: "nat list" where "glyph_up \<equiv> [0x2191]"
abbreviation glyph_up_right :: "nat list" where "glyph_up_right \<equiv> [0x2197]"
abbreviation glyph_right :: "nat list" where "glyph_right \<equiv> [0x2192]"
abbreviation glyph_down_right :: "nat list" where "glyph_down_right \<equiv> [0x2198]"
abbreviation glyph_down :: "nat list" where "glyph_down \<equiv> [0x2193]"
abbreviation glyph_down_left :: "nat list" where "glyph_down_left \<equiv> [0x2199]"
abbreviation glyph_left :: "nat list" where "glyph_left \<equiv> [0x2190]"
abbreviation glyph_up_left :: "nat list" where "glyph_up_left \<equiv> [0x2196]"

text \<open>
  \<^verbatim>\<open>app_wind_text.py\<close>:
  \<^verbatim>\<open>
  def arrow_from_direction(deg):
      dirs = ['\u2191', '\u2197', '\u2192', '\u2198', '\u2193', '\u2199', '\u2190', '\u2196']
      try:
          idx = int((deg % 360) / 45.0 + 0.5) % 8
          return dirs[idx]
      except:
          return ''
  \<close>
  The remainder, the quotient and the sum are binary64 operations, each rounded; \<^verbatim>\<open>int\<close>
  truncates the sum, and \<^verbatim>\<open>45.0\<close> and \<^verbatim>\<open>0.5\<close> are binary64 values as written.
\<close>

definition dirs :: "nat list list" where
  "dirs = [[0x2191], [0x2197], [0x2192], [0x2198], [0x2193], [0x2199], [0x2190], [0x2196]]"

definition arrow_from_direction :: "pyval \<Rightarrow> nat list" where
  "arrow_from_direction deg =
     (case and_then (py_mod deg 360) (\<lambda>r.
             and_then (py_truediv r 45.0) (\<lambda>q.
             and_then (float_int (fadd_const q 0.5)) (\<lambda>i.
             py_index dirs (i mod 8)))) of
        Inl e \<Rightarrow> []
      | Inr glyph \<Rightarrow> glyph)"

section \<open>The wind vector\<close>

text \<open>
  \<^verbatim>\<open>app_wind.py\<close> draws a line from each point to an end point, row by row:
  \<^verbatim>\<open>
  scale = 0.0005  # scaling factor for arrow length
  filtered['theta'] = filtered['WindDirection'].apply(lambda d: math.radians(d))
  filtered['end_lon'] = filtered['lon'] + filtered['WindSpeed'] * scale * filtered['theta'].apply(lambda x: math.sin(x))
  filtered['end_lat'] = filtered['lat'] + filtered['WindSpeed'] * scale * filtered['theta'].apply(lambda x: math.cos(x))
  \<close>
  Series arithmetic is elementwise, so each derived column is given by its value in one
  row: \<open>theta_of\<close> is the \<^verbatim>\<open>theta\<close> column, \<open>displacement trig\<close> the product
  \<^verbatim>\<open>WindSpeed * scale * trig(theta)\<close> with the scaling factor as a parameter, and
  \<open>end_point\<close> the end coordinate with the \<open>scale\<close> the script fixes. \<open>wind_offset\<close> pairs
  the two displacements of a row and \<open>wind_end\<close> its two end coordinates. Python computes
  the left factor \<^verbatim>\<open>WindSpeed * scale\<close> before it applies the trigonometric function, so a
  speed that is no number raises before an infinite angle does.
\<close>

definition scale :: real where
  "scale = 0.0005"

definition displacement ::
  "(pyfloat \<Rightarrow> error + pyfloat) \<Rightarrow> pyval \<Rightarrow> real \<Rightarrow> pyval \<Rightarrow> error + pyfloat" where
  "displacement trig speed sc theta =
     and_then (num speed) (\<lambda>w.
     and_then (num theta) (\<lambda>t.
     and_then (trig t) (\<lambda>s.
       Inr (fmul (fmul w (Fin sc)) s))))"

definition end_point ::
  "(pyfloat \<Rightarrow> error + pyfloat) \<Rightarrow> pyval \<Rightarrow> pyval \<Rightarrow> pyval \<Rightarrow> error + pyval" where
  "end_point trig pos speed theta =
     and_then (displacement trig speed scale theta) (\<lambda>d.
     and_then (num pos) (\<lambda>p.
       Inr (PyFloat (fadd p d))))"

definition theta_of :: "pyval \<Rightarrow> error + pyval" where
  "theta_of d = and_then (math_radians d) (\<lambda>t. Inr (PyFloat t))"

definition wind_offset :: "pyval \<Rightarrow> pyval \<Rightarrow> real \<Rightarrow> error + pyfloat \<times> pyfloat" where
  "wind_offset speed bearing sc =
     and_then (theta_of bearing) (\<lambda>theta.
     and_then (displacement math_sin speed sc theta) (\<lambda>dx.
     and_then (displacement math_cos speed sc theta) (\<lambda>dy.
       Inr (dx, dy))))"

definition wind_end :: "pyval \<Rightarrow> pyval \<Rightarrow> pyval \<Rightarrow> pyval \<Rightarrow> error + pyval \<times> pyval" where
  "wind_end lon lat speed bearing =
     and_then (theta_of bearing) (\<lambda>theta.
     and_then (end_point math_sin lon speed theta) (\<lambda>end_lon.
     and_then (end_point math_cos lat speed theta) (\<lambda>end_lat.
       Inr (end_lon, end_lat))))"

text \<open>
  \<^verbatim>\<open>app_wind_static.py\<close> draws a quiver arrow per row, with numpy, which does not raise
  on an infinite angle:
  \<^verbatim>\<open>
  theta = np.radians(filtered["WindDirection"])
  u = filtered["WindSpeed"] * np.cos(theta)
  v = filtered["WindSpeed"] * np.sin(theta)
  \<close>
\<close>

definition quiver_uv :: "pyval \<Rightarrow> pyval \<Rightarrow> error + pyfloat \<times> pyfloat" where
  "quiver_uv speed bearing =
     and_then (num bearing) (\<lambda>d.
     and_then (num speed) (\<lambda>w.
       Inr (fmul w (np_cos (fradians d)), fmul w (np_sin (fradians d)))))"

section \<open>Data frames\<close>

text \<open>
  A pandas \<^verbatim>\<open>Series\<close> is the list of its values and a \<^verbatim>\<open>DataFrame\<close> is its index labels
  with its named columns; every column of a frame has one value per index label. The
  loaders (\<^verbatim>\<open>load_data\<close> followed by \<^verbatim>\<open>pd.to_datetime\<close>) are outside the model: a loaded
  frame has a \<^verbatim>\<open>date\<close> column of timestamps, with \<^verbatim>\<open>NaT\<close> for a missing date.
\<close>

type_synonym series = "pyval list"

record frame =
  index :: "nat list"
  cols :: "(string \<times> series) list"

text \<open>\<^verbatim>\<open>df[c]\<close>: a missing column raises \<^verbatim>\<open>KeyError\<close>.\<close>

definition column :: "frame \<Rightarrow> string \<Rightarrow> error + series" where
  "column f c = (case map_of (cols f) c of None \<Rightarrow> Inl KeyError | Some vs \<Rightarrow> Inr vs)"

text \<open>\<^verbatim>\<open>s.apply(f)\<close>: the first exception of \<open>f\<close> ends the call.\<close>

fun series_apply :: "(pyval \<Rightarrow> error + pyval) \<Rightarrow> series \<Rightarrow> error + series" where
  "series_apply f [] = Inr []"
| "series_apply f (v # vs) =
     and_then (f v) (\<lambda>y. and_then (series_apply f vs) (\<lambda>ys. Inr (y # ys)))"

text \<open>
  \<^verbatim>\<open>df[mask]\<close> for a boolean mask keeps the rows where the mask is true. The scripts
  compute the mask from a column of the same frame, so it has one entry per row.
\<close>

definition select_rows :: "bool list \<Rightarrow> 'a list \<Rightarrow> 'a list" where
  "select_rows keep xs = map snd (filter fst (zip keep xs))"

definition frame_mask :: "frame \<Rightarrow> bool list \<Rightarrow> frame" where
  "frame_mask f keep =
     \<lparr>index = select_rows keep (index f),
      cols = map (\<lambda>(c, vs). (c, select_rows keep vs)) (cols f)\<rparr>"

text \<open>\<^verbatim>\<open>df[[c1, c2, ...]]\<close>, \<^verbatim>\<open>df.reset_index(drop=True)\<close>, \<^verbatim>\<open>df[c] = s\<close> and \<^verbatim>\<open>df.empty\<close>.\<close>

fun columns_of :: "frame \<Rightarrow> string list \<Rightarrow> error + (string \<times> series) list" where
  "columns_of f [] = Inr []"
| "columns_of f (c # cs) =
     and_then (column f c) (\<lambda>vs. and_then (columns_of f cs) (\<lambda>rest. Inr ((c, vs) # rest)))"

definition frame_cols :: "frame \<Rightarrow> string list \<Rightarrow> error + frame" where
  "frame_cols f cs = and_then (columns_of f cs) (\<lambda>sel. Inr \<lparr>index = index f, cols = sel\<rparr>)"

definition reset_index :: "frame \<Rightarrow> frame" where
  "reset_index f = f\<lparr>index := [0..<length (index f)]\<rparr>"

definition set_column :: "frame \<Rightarrow> string \<Rightarrow> series \<Rightarrow> frame" where
  "set_column f c vs = f\<lparr>cols := AList.update c vs (cols f)\<rparr>"

definition is_empty :: "frame \<Rightarrow> bool" where
  "is_empty f = (index f = [] \<or> cols f = [])"

text \<open>The rows of a frame: each index label with the cells of its row, by column name.\<close>

fun rows_of :: "nat list \<Rightarrow> (string \<times> series) list \<Rightarrow> (nat \<times> (string \<times> pyval) list) list" where
  "rows_of [] cs = []"
| "rows_of (i # ix) cs =
     (i, map (\<lambda>(c, vs). (c, hd vs)) cs) # rows_of ix (map (\<lambda>(c, vs). (c, tl vs)) cs)"

definition rows :: "frame \<Rightarrow> (nat \<times> (string \<times> pyval) list) list" where
  "rows f = rows_of (index f) (cols f)"

definition rectangular :: "frame \<Rightarrow> bool" where
  "rectangular f = list_all (\<lambda>(c, vs). length vs = length (index f)) (cols f)"

section \<open>The world of one script run\<close>

text \<open>
  Frames are objects: a variable of the script holds the address of a frame in the heap,
  \<^verbatim>\<open>df[mask]\<close> and \<^verbatim>\<open>df.copy()\<close> allocate a new frame, and \<^verbatim>\<open>df[c] = s\<close> changes the
  frame at the address in place. What Streamlit shows is the list of widgets written so
  far. The rendering and statistics libraries are outside the model: a widget records
  the call and the data handed to it. An address that holds no frame stands for a name
  that was never bound, which raises \<^verbatim>\<open>NameError\<close>.
\<close>

datatype label = Text string | Data_for date | Conditions_on date

datatype layer = Layer string frame

datatype view = View_state series series

datatype plot = Scatter series series series | Quiver series series series series

datatype widget =
    Subheader label
  | Dataframe frame
  | Pydeck_chart "layer list" view
  | Describe frame
  | Describe_all frame
  | Write string
  | Pyplot "plot list" label

record world =
  heap :: "frame list"
  screen :: "widget list"

type_synonym 'a prog = "world \<Rightarrow> (error + 'a) \<times> world"

definition returns :: "'a \<Rightarrow> 'a prog" where
  "returns x w = (Inr x, w)"

definition lift :: "error + 'a \<Rightarrow> 'a prog" where
  "lift r w = (r, w)"

definition then_do :: "'a prog \<Rightarrow> ('a \<Rightarrow> 'b prog) \<Rightarrow> 'b prog" where
  "then_do m k w = (case m w of (Inl e, w') \<Rightarrow> (Inl e, w') | (Inr x, w') \<Rightarrow> k x w')"

definition frame_at :: "nat \<Rightarrow> frame prog" where
  "frame_at a w = (if a < length (heap w) then (Inr (heap w ! a), w) else (Inl NameError, w))"

definition new_frame :: "frame \<Rightarrow> nat prog" where
  "new_frame f w = (Inr (length (heap w)), w\<lparr>heap := heap w @ [f]\<rparr>)"

definition store_frame :: "nat \<Rightarrow> frame \<Rightarrow> unit prog" where
  "store_frame a f w =
     (if a < length (heap w) then (Inr (), w\<lparr>heap := (heap w)[a := f]\<rparr>)
      else (Inl NameError, w))"

definition st :: "widget \<Rightarrow> unit prog" where
  "st x w = (Inr (), w\<lparr>screen := screen w @ [x]\<rparr>)"

definition getitem_col :: "nat \<Rightarrow> string \<Rightarrow> series prog" where
  "getitem_col a c = then_do (frame_at a) (\<lambda>f. lift (column f c))"

definition getitem_mask :: "nat \<Rightarrow> bool list \<Rightarrow> nat prog" where
  "getitem_mask a keep = then_do (frame_at a) (\<lambda>f. new_frame (frame_mask f keep))"

definition getitem_cols :: "nat \<Rightarrow> string list \<Rightarrow> frame prog" where
  "getitem_cols a cs = then_do (frame_at a) (\<lambda>f. lift (frame_cols f cs))"

definition df_copy :: "nat \<Rightarrow> nat prog" where
  "df_copy a = then_do (frame_at a) new_frame"

definition setitem :: "nat \<Rightarrow> string \<Rightarrow> series \<Rightarrow> unit prog" where
  "setitem a c vs = then_do (frame_at a) (\<lambda>f. store_frame a (set_column f c vs))"

definition df_empty :: "nat \<Rightarrow> bool prog" where
  "df_empty a = then_do (frame_at a) (\<lambda>f. returns (is_empty f))"

text \<open>
  Series arithmetic on two or three columns of the same frame is elementwise: one value
  per row, from the cells of that row.
\<close>

fun series_apply2 :: "(pyval \<Rightarrow> pyval \<Rightarrow> error + 'a) \<Rightarrow> series \<Rightarrow> series \<Rightarrow> error + 'a list" where
  "series_apply2 f (x # xs) (y # ys) =
     and_then (f x y) (\<lambda>z. and_then (series_apply2 f xs ys) (\<lambda>zs. Inr (z # zs)))"
| "series_apply2 f xs ys = Inr []"

fun series_apply3 ::
  "(pyval \<Rightarrow> pyval \<Rightarrow> pyval \<Rightarrow> error + 'a) \<Rightarrow> series \<Rightarrow> series \<Rightarrow> series \<Rightarrow> error + 'a list" where
  "series_apply3 f (x # xs) (y # ys) (z # zs) =
     and_then (f x y z) (\<lambda>r. and_then (series_apply3 f xs ys zs) (\<lambda>rs. Inr (r # rs)))"
| "series_apply3 f xs ys zs = Inr []"

section \<open>Filtering by the selected date\<close>

text \<open>
  \<^verbatim>\<open>app.py\<close>, \<^verbatim>\<open>app_weather.py\<close>, \<^verbatim>\<open>app_wind.py\<close>, \<^verbatim>\<open>app_wind_icon.py\<close> and
  \<^verbatim>\<open>app_wind_text.py\<close>:
  \<^verbatim>\<open>filtered = df[df['date'].dt.date == selected_date]\<close>
  The accessor \<^verbatim>\<open>.dt.date\<close> gives the calendar date of a timestamp and keeps \<^verbatim>\<open>NaT\<close>;
  \<^verbatim>\<open>NaT == selected_date\<close> is false.
\<close>

fun dt_date :: "pyval \<Rightarrow> error + pyval" where
  "dt_date (PyTimestamp t) = Inr (PyDate (on_date t))"
| "dt_date PyNaT = Inr PyNaT"
| "dt_date v = Inl AttributeError"

fun eq_date :: "pyval \<Rightarrow> date \<Rightarrow> bool" where
  "eq_date (PyDate d') d = (d' = d)"
| "eq_date v d = False"

definition filter_by_date :: "nat \<Rightarrow> date \<Rightarrow> nat prog" where
  "filter_by_date df selected_date =
     then_do (getitem_col df ''date'') (\<lambda>dates.
     then_do (lift (series_apply dt_date dates)) (\<lambda>days.
       getitem_mask df (map (\<lambda>v. eq_date v selected_date) days)))"

text \<open>
  \<^verbatim>\<open>app_wind_static.py\<close>:
  \<^verbatim>\<open>filtered = df[df["date"] == pd.to_datetime(selected_date)]\<close>
  \<^verbatim>\<open>pd.to_datetime\<close> of a calendar date is the timestamp of its midnight.
\<close>

definition to_datetime :: "date \<Rightarrow> timestamp" where
  "to_datetime d = \<lparr>on_date = d, nanos = 0\<rparr>"

fun eq_timestamp :: "pyval \<Rightarrow> timestamp \<Rightarrow> bool" where
  "eq_timestamp (PyTimestamp t') t = (t' = t)"
| "eq_timestamp v t = False"

definition filter_by_timestamp :: "nat \<Rightarrow> date \<Rightarrow> nat prog" where
  "filter_by_timestamp df selected_date =
     then_do (getitem_col df ''date'') (\<lambda>dates.
       getitem_mask df (map (\<lambda>v. eq_timestamp v (to_datetime selected_date)) dates))"

fun filter_in :: "variant \<Rightarrow> nat \<Rightarrow> date \<Rightarrow> nat prog" where
  "filter_in App_wind_static = filter_by_timestamp"
| "filter_in v = filter_by_date"

section \<open>The rendering pass of each dashboard\<close>

text \<open>
  Each script is rerun from the top for every date the user selects. The pass modelled
  here starts where the script filters the loaded frame \<^verbatim>\<open>df\<close> by \<^verbatim>\<open>selected_date\<close> and
  runs to the script's end. Steps that five or six scripts share word for word are
  defined once.
\<close>

text \<open>\<^verbatim>\<open>filtered['color'] = filtered['NDVI'].apply(ndvi_color)\<close>\<close>

definition add_color :: "nat \<Rightarrow> unit prog" where
  "add_color filtered =
     then_do (getitem_col filtered ''NDVI'') (\<lambda>ndvi.
     then_do (lift (series_apply ndvi_color ndvi)) (\<lambda>color.
       setitem filtered ''color'' color))"

text \<open>
  \<^verbatim>\<open>pdk.ViewState(latitude=filtered['lat'].mean(), longitude=filtered['lon'].mean(), ...)\<close>
\<close>

definition view_state :: "nat \<Rightarrow> view prog" where
  "view_state filtered =
     then_do (getitem_col filtered ''lat'') (\<lambda>lat.
     then_do (getitem_col filtered ''lon'') (\<lambda>lon.
       returns (View_state lat lon)))"

text \<open>\<^verbatim>\<open>st.pydeck_chart(pdk.Deck(layers=[...], initial_view_state=view_state, ...))\<close>\<close>

definition pydeck_chart :: "nat \<Rightarrow> string list \<Rightarrow> unit prog" where
  "pydeck_chart filtered kinds =
     then_do (frame_at filtered) (\<lambda>data.
     then_do (view_state filtered) (\<lambda>view.
       st (Pydeck_chart (map (\<lambda>kind. Layer kind data) kinds) view)))"

text \<open>\<^verbatim>\<open>st.dataframe(filtered[[...]].reset_index(drop=True))\<close>\<close>

definition dataframe :: "nat \<Rightarrow> string list \<Rightarrow> unit prog" where
  "dataframe filtered cs =
     then_do (getitem_cols filtered cs) (\<lambda>shown. st (Dataframe (reset_index shown)))"

text \<open>\<^verbatim>\<open>st.subheader(title)\<close> followed by \<^verbatim>\<open>st.write(filtered[[...]].describe())\<close>\<close>

definition statistics :: "nat \<Rightarrow> string \<Rightarrow> string list \<Rightarrow> unit prog" where
  "statistics filtered title cs =
     then_do (st (Subheader (Text title))) (\<lambda>_.
     then_do (getitem_cols filtered cs) (\<lambda>numbers. st (Describe numbers)))"

text \<open>\<^verbatim>\<open>app.py\<close>, lines 33 to 78.\<close>

definition app_pass :: "nat \<Rightarrow> date \<Rightarrow> unit prog" where
  "app_pass df selected_date =
     then_do (filter_by_date df selected_date) (\<lambda>filtered.
     then_do (st (Subheader (Data_for selected_date))) (\<lambda>_.
     then_do (dataframe filtered [''lat'', ''lon'', ''date'', ''NDVI'', ''NDWI'', ''EVI'']) (\<lambda>_.
     then_do (df_empty filtered) (\<lambda>no_rows.
       if \<not> no_rows then
         then_do (df_copy filtered) (\<lambda>filtered.
         then_do (add_color filtered) (\<lambda>_.
         then_do (pydeck_chart filtered [''ScatterplotLayer'']) (\<lambda>_.
           statistics filtered ''Summary Statistics'' [''NDVI'', ''NDWI'', ''EVI''])))
       else st (Write ''No data available for the selected date.'')))))"

text \<open>\<^verbatim>\<open>app_weather.py\<close>, lines 40 to 111.\<close>

definition app_weather_pass :: "nat \<Rightarrow> date \<Rightarrow> unit prog" where
  "app_weather_pass df selected_date =
     then_do (filter_by_date df selected_date) (\<lambda>filtered.
     then_do (st (Subheader (Data_for selected_date))) (\<lambda>_.
     then_do (dataframe filtered
       [''lat'', ''lon'', ''date'', ''NDVI'', ''NDWI'', ''EVI'',
        ''Temperature'', ''Rainfall'', ''WindSpeed'']) (\<lambda>_.
     then_do (df_empty filtered) (\<lambda>no_rows.
       if \<not> no_rows then
         then_do (df_copy filtered) (\<lambda>filtered.
         then_do (add_color filtered) (\<lambda>_.
         then_do (pydeck_chart filtered [''ScatterplotLayer'']) (\<lambda>_.
         then_do (statistics filtered ''Vegetation Statistics'' [''NDVI'', ''NDWI'', ''EVI'']) (\<lambda>_.
           statistics filtered ''Weather Statistics''
             [''Temperature'', ''Rainfall'', ''WindSpeed'']))))
       else st (Write ''No data available for the selected date.'')))))"

text \<open>
  The table and the two statistics blocks that close the non-empty branch of
  \<^verbatim>\<open>app_wind.py\<close>, \<^verbatim>\<open>app_wind_icon.py\<close> and \<^verbatim>\<open>app_wind_text.py\<close>.
\<close>

definition wind_tables :: "nat \<Rightarrow> date \<Rightarrow> unit prog" where
  "wind_tables filtered selected_date =
     then_do (st (Subheader (Data_for selected_date))) (\<lambda>_.
     then_do (dataframe filtered
       [''lat'', ''lon'', ''date'', ''NDVI'', ''NDWI'', ''EVI'',
        ''Temperature'', ''Rainfall'', ''WindSpeed'', ''WindDirection'']) (\<lambda>_.
     then_do (statistics filtered ''Vegetation statistics'' [''NDVI'', ''NDWI'', ''EVI'']) (\<lambda>_.
       statistics filtered ''Weather statistics''
         [''Temperature'', ''Rainfall'', ''WindSpeed''])))"

text \<open>\<^verbatim>\<open>app_wind.py\<close>, lines 33 to 122.\<close>

definition add_wind_vectors :: "nat \<Rightarrow> unit prog" where
  "add_wind_vectors filtered =
     then_do (getitem_col filtered ''WindDirection'') (\<lambda>direction.
     then_do (lift (series_apply theta_of direction)) (\<lambda>theta.
     then_do (setitem filtered ''theta'' theta) (\<lambda>_.
     then_do (getitem_col filtered ''lon'') (\<lambda>lon.
     then_do (getitem_col filtered ''WindSpeed'') (\<lambda>speed.
     then_do (getitem_col filtered ''theta'') (\<lambda>theta.
     then_do (lift (series_apply3 (end_point math_sin) lon speed theta)) (\<lambda>end_lon.
     then_do (setitem filtered ''end_lon'' end_lon) (\<lambda>_.
     then_do (getitem_col filtered ''lat'') (\<lambda>lat.
     then_do (getitem_col filtered ''WindSpeed'') (\<lambda>speed.
     then_do (getitem_col filtered ''theta'') (\<lambda>theta.
     then_do (lift (series_apply3 (end_point math_cos) lat speed theta)) (\<lambda>end_lat.
       setitem filtered ''end_lat'' end_lat))))))))))))"

definition app_wind_pass :: "nat \<Rightarrow> date \<Rightarrow> unit prog" where
  "app_wind_pass df selected_date =
     then_do (filter_by_date df selected_date) (\<lambda>filtered.
     then_do (df_empty filtered) (\<lambda>no_rows.
       if \<not> no_rows then
         then_do (df_copy filtered) (\<lambda>filtered.
         then_do (add_color filtered) (\<lambda>_.
         then_do (add_wind_vectors filtered) (\<lambda>_.
         then_do (pydeck_chart filtered [''ScatterplotLayer'', ''LineLayer'']) (\<lambda>_.
           wind_tables filtered selected_date))))
       else st (Write ''No data available for the selected date.'')))"

text \<open>
  \<^verbatim>\<open>app_wind_icon.py\<close>, lines 31 to 111. \<^verbatim>\<open>filtered['icon_data'] = 'arrow'\<close> gives every
  row the same string.
\<close>

definition add_icon :: "nat \<Rightarrow> unit prog" where
  "add_icon filtered =
     then_do (frame_at filtered) (\<lambda>f.
       setitem filtered ''icon_data''
         (replicate (length (index f)) (PyStr (map of_char ''arrow''))))"

definition app_wind_icon_pass :: "nat \<Rightarrow> date \<Rightarrow> unit prog" where
  "app_wind_icon_pass df selected_date =
     then_do (filter_by_date df selected_date) (\<lambda>filtered.
     then_do (df_empty filtered) (\<lambda>no_rows.
       if \<not> no_rows then
         then_do (df_copy filtered) (\<lambda>filtered.
         then_do (add_color filtered) (\<lambda>_.
         then_do (add_icon filtered) (\<lambda>_.
         then_do (pydeck_chart filtered [''ScatterplotLayer'', ''IconLayer'']) (\<lambda>_.
           wind_tables filtered selected_date))))
       else st (Write ''No data available for the selected date.'')))"

text \<open>
  \<^verbatim>\<open>app_wind_text.py\<close>, lines 29 to 106, with
  \<^verbatim>\<open>filtered['text_size'] = filtered['WindSpeed'] * 2 + 10\<close>. A column of whole numbers has
  dtype \<^verbatim>\<open>int64\<close>, whose product and sum wrap around modulo \<open>2 ^ 64\<close> without raising.
\<close>

definition wrap64 :: "int \<Rightarrow> int" where
  "wrap64 i = (i + 2 ^ 63) mod 2 ^ 64 - 2 ^ 63"

fun text_size :: "pyval \<Rightarrow> error + pyval" where
  "text_size (PyFloat x) = Inr (PyFloat (fadd (fmul x (Fin 2)) (Fin 10)))"
| "text_size (PyInt i) = Inr (PyInt (wrap64 (wrap64 (i * 2) + 10)))"
| "text_size v = Inl TypeError"

definition add_arrows :: "nat \<Rightarrow> unit prog" where
  "add_arrows filtered =
     then_do (getitem_col filtered ''WindDirection'') (\<lambda>direction.
     then_do (setitem filtered ''arrow_char''
                (map (\<lambda>deg. PyStr (arrow_from_direction deg)) direction)) (\<lambda>_.
     then_do (getitem_col filtered ''WindSpeed'') (\<lambda>speed.
     then_do (lift (series_apply text_size speed)) (\<lambda>size.
       setitem filtered ''text_size'' size))))"

definition app_wind_text_pass :: "nat \<Rightarrow> date \<Rightarrow> unit prog" where
  "app_wind_text_pass df selected_date =
     then_do (filter_by_date df selected_date) (\<lambda>filtered.
     then_do (df_empty filtered) (\<lambda>no_rows.
       if \<not> no_rows then
         then_do (df_copy filtered) (\<lambda>filtered.
         then_do (add_color filtered) (\<lambda>_.
         then_do (add_arrows filtered) (\<lambda>_.
         then_do (pydeck_chart filtered [''ScatterplotLayer'', ''TextLayer'']) (\<lambda>_.
           wind_tables filtered selected_date))))
       else st (Write ''No data available for the selected date.'')))"

text \<open>
  \<^verbatim>\<open>app_wind_static.py\<close>, lines 33 to 92. The colours and the arrow components are local
  series; the script adds no column and makes no copy.
\<close>

definition app_wind_static_pass :: "nat \<Rightarrow> date \<Rightarrow> unit prog" where
  "app_wind_static_pass df selected_date =
     then_do (filter_by_timestamp df selected_date) (\<lambda>filtered.
     then_do (df_empty filtered) (\<lambda>no_rows.
       if no_rows then st (Write ''No data available for selected date.'')
       else
         then_do (getitem_col filtered ''NDVI'') (\<lambda>ndvi.
         then_do (lift (series_apply ndvi_color_static ndvi)) (\<lambda>colors.
         then_do (getitem_col filtered ''WindDirection'') (\<lambda>direction.
         then_do (getitem_col filtered ''WindSpeed'') (\<lambda>speed.
         then_do (lift (series_apply2 quiver_uv speed direction)) (\<lambda>uv.
         then_do (getitem_col filtered ''lon'') (\<lambda>lon.
         then_do (getitem_col filtered ''lat'') (\<lambda>lat.
         then_do (st (Pyplot
             [Scatter lon lat colors,
              Quiver lon lat (map (\<lambda>(u, v). PyFloat u) uv) (map (\<lambda>(u, v). PyFloat v) uv)]
             (Conditions_on selected_date))) (\<lambda>_.
         then_do (st (Subheader (Text ''Data Table''))) (\<lambda>_.
         then_do (frame_at filtered) (\<lambda>data.
         then_do (st (Dataframe data)) (\<lambda>_.
         then_do (st (Subheader (Text ''Summary Statistics''))) (\<lambda>_.
           st (Describe_all data)))))))))))))))"

fun run_pass :: "variant \<Rightarrow> nat \<Rightarrow> date \<Rightarrow> unit prog" where
  "run_pass App = app_pass"
| "run_pass App_weather = app_weather_pass"
| "run_pass App_wind = app_wind_pass"
| "run_pass App_wind_icon = app_wind_icon_pass"
| "run_pass App_wind_text = app_wind_text_pass"
| "run_pass App_wind_static = app_wind_static_pass"

text \<open>The widgets that show a map layer, a plot or descriptive statistics.\<close>

fun is_analysis :: "widget \<Rightarrow> bool" where
  "is_analysis (Pydeck_chart layers view) = True"
| "is_analysis (Pyplot plots title) = True"
| "is_analysis (Describe f) = True"
| "is_analysis (Describe_all f) = True"
| "is_analysis x = False"

text \<open>
  What each script does before and in the branch for an empty subset: \<^verbatim>\<open>app.py\<close> and
  \<^verbatim>\<open>app_weather.py\<close> show the table of these columns before they test for emptiness,
  and every script writes a message in that branch.
\<close>

fun shown_first :: "variant \<Rightarrow> string list" where
  "shown_first App = [''lat'', ''lon'', ''date'', ''NDVI'', ''NDWI'', ''EVI'']"
| "shown_first App_weather =
     [''lat'', ''lon'', ''date'', ''NDVI'', ''NDWI'', ''EVI'',
      ''Temperature'', ''Rainfall'', ''WindSpeed'']"
| "shown_first v = []"

fun no_data_message :: "variant \<Rightarrow> string" where
  "no_data_message App_wind_static = ''No data available for selected date.''"
| "no_data_message v = ''No data available for the selected date.''"

text \<open>
  Two properties of a row, read off its \<^verbatim>\<open>date\<close> cell: stamped on a given day, at any
  time of day; and stamped at midnight of a given day.
\<close>

fun on_day :: "date \<Rightarrow> nat \<times> (string \<times> pyval) list \<Rightarrow> bool" where
  "on_day d (i, r) =
     (case map_of r ''date'' of Some (PyTimestamp t) \<Rightarrow> on_date t = d | _ \<Rightarrow> False)"

fun at_midnight :: "date \<Rightarrow> nat \<times> (string \<times> pyval) list \<Rightarrow> bool" where
  "at_midnight d (i, r) =
     (case map_of r ''date'' of
        Some (PyTimestamp t) \<Rightarrow> on_date t = d \<and> nanos t = 0
      | _ \<Rightarrow> False)"

section \<open>A sample dataset\<close>

text \<open>
  Two readings in the columns of \<^verbatim>\<open>full_ndvi_weather.csv\<close>: one stamped at midnight of
  1 July 2025, one at noon of 3 July 2025. The slider of every script then offers the
  dates from 1 July to 3 July. Every number in it is a binary64 value.
\<close>

definition july :: "nat \<Rightarrow> date" where
  "july n = \<lparr>year = 2025, month = 7, day = n\<rparr>"

definition noon :: nat where
  "noon = 43200000000000"

definition sample_df :: frame where
  "sample_df =
     \<lparr>index = [0, 1],
      cols =
        [(''lat'', [PyFloat (Fin 47.5), PyFloat (Fin 47.625)]),
         (''lon'', [PyFloat (Fin 12.875), PyFloat (Fin 13)]),
         (''date'', [PyTimestamp \<lparr>on_date = july 1, nanos = 0\<rparr>,
                     PyTimestamp \<lparr>on_date = july 3, nanos = noon\<rparr>]),
         (''NDVI'', [PyFloat (Fin 0.75), PyFloat (Fin 0.25)]),
         (''NDWI'', [PyFloat (Fin 0.125), PyFloat (Fin 0.375)]),
         (''EVI'', [PyFloat (Fin 0.5), PyFloat (Fin 0.25)]),
         (''Temperature'', [PyFloat (Fin 21.5), PyFloat (Fin 18)]),
         (''Rainfall'', [PyFloat (Fin 0), PyFloat (Fin 2.5)]),
         (''WindSpeed'', [PyFloat (Fin 3), PyFloat (Fin 5)]),
         (''WindDirection'', [PyFloat (Fin 90), PyFloat (Fin 22.5)])]\<rparr>"

definition row0 :: "(string \<times> pyval) list" where
  "row0 = [(''lat'', PyFloat (Fin 47.5)),
         (''lon'', PyFloat (Fin 12.875)),
         (''date'', PyTimestamp \<lparr>on_date = july 1, nanos = 0\<rparr>),
         (''NDVI'', PyFloat (Fin 0.75)),
         (''NDWI'', PyFloat (Fin 0.125)),
         (''EVI'', PyFloat (Fin 0.5)),
         (''Temperature'', PyFloat (Fin 21.5)),
         (''Rainfall'', PyFloat (Fin 0)),
         (''WindSpeed'', PyFloat (Fin 3)),
         (''WindDirection'', PyFloat (Fin 90))]"

definition row1 :: "(string \<times> pyval) list" where
  "row1 = [(''lat'', PyFloat (Fin 47.625)),
         (''lon'', PyFloat (Fin 13)),
         (''date'', PyTimestamp \<lparr>on_date = july 3, nanos = noon\<rparr>),
         (''NDVI'', PyFloat (Fin 0.25)),
         (''NDWI'', PyFloat (Fin 0.375)),
         (''EVI'', PyFloat (Fin 0.25)),
         (''Temperature'', PyFloat (Fin 18)),
         (''Rainfall'', PyFloat (Fin 2.5)),
         (''WindSpeed'', PyFloat (Fin 5)),
         (''WindDirection'', PyFloat (Fin 22.5))]"

definition sample_world :: world where
  "sample_world = \<lparr>heap = [sample_df], screen = []\<rparr>"

section \<open>Notions used in the proofs\<close>

text \<open>
  A program keeps the first \<open>n\<close> frames of the heap when, started with at least \<open>n\<close> frames,
  it leaves them as they are and never shrinks the heap; \<open>Q\<close> holds of the value it returns.
\<close>

definition keeps :: "nat \<Rightarrow> 'a prog \<Rightarrow> ('a \<Rightarrow> bool) \<Rightarrow> bool" where
  "keeps n p Q =
     (\<forall>w. n \<le> length (heap w) \<longrightarrow>
        (case p w of (r, w') \<Rightarrow>
           take n (heap w') = take n (heap w) \<and> length (heap w) \<le> length (heap w') \<and>
           (case r of Inl e \<Rightarrow> True | Inr x \<Rightarrow> Q x)))"

text \<open>
  Rows are read off the columns head by head: the first cells, the remaining cells, the
  cells a mask keeps, and columns that all have \<open>n\<close> cells.
\<close>

definition heads :: "(string \<times> series) list \<Rightarrow> (string \<times> pyval) list" where
  "heads cs = map (\<lambda>(c, vs). (c, hd vs)) cs"

definition tails :: "(string \<times> series) list \<Rightarrow> (string \<times> series) list" where
  "tails cs = map (\<lambda>(c, vs). (c, tl vs)) cs"

definition picked :: "bool list \<Rightarrow> (string \<times> series) list \<Rightarrow> (string \<times> series) list" where
  "picked keep cs = map (\<lambda>(c, vs). (c, select_rows keep vs)) cs"

definition tall :: "nat \<Rightarrow> (string \<times> series) list \<Rightarrow> bool" where
  "tall n cs = list_all (\<lambda>(c, vs). length vs = n) cs"

text \<open>
  The two stages of the glyph index on a finite float: \<open>reduced x\<close> is the value of
  \<^verbatim>\<open>x % 360\<close> (exact when \<open>x\<close> is not negative, rounded once when it is), and
  \<open>glyph_index r\<close> the value of \<^verbatim>\<open>int(r / 45.0 + 0.5)\<close> on a remainder \<open>r\<close> that is not
  negative. Lemmas \<open>fmod_360\<close> and \<open>glyph_steps\<close> show that this is what the operators of
  \<open>arrow_from_direction\<close> return.
\<close>

definition reduced :: "real \<Rightarrow> real" where
  "reduced x =
     (if 0 \<le> x then x - 360 * of_int \<lfloor>x / 360\<rfloor>
      else binary64 (x - 360 * of_int \<lfloor>x / 360\<rfloor>))"

definition glyph_index :: "real \<Rightarrow> int" where
  "glyph_index r = \<lfloor>binary64 (binary64 (r / 45) + 1 / 2)\<rfloor>"

section \<open>Properties\<close>

subsection \<open>Auxiliary facts\<close>

lemma and_then_Inr [simp]: "and_then (Inr x) f = f x"
  by (simp add: and_then_def)

lemma and_then_Inl [simp]: "and_then (Inl e) f = Inl e"
  by (simp add: and_then_def)

subsection \<open>Facts about binary64 rounding\<close>

lemma half_even_error: "\<bar>of_int (half_even t) - t\<bar> \<le> 1 / 2"
  unfolding half_even_def by (auto; linarith)

lemma half_even_of_int: "half_even (of_int n) = n"
  by (simp add: half_even_def)

lemma half_even_le: "t \<le> of_int n \<Longrightarrow> half_even t \<le> n"
proof -
  assume t: "t \<le> of_int n"
  show ?thesis
  proof (cases "t = of_int n")
    case True
    then show ?thesis by (simp add: half_even_of_int)
  next
    case False
    with t have "t < of_int n" by simp
    then have "\<lfloor>t\<rfloor> < n" by (simp add: floor_less_iff)
    then show ?thesis by (auto simp: half_even_def)
  qed
qed

lemma half_even_ge: "of_int n \<le> t \<Longrightarrow> n \<le> half_even t"
proof -
  assume "of_int n \<le> t"
  then have "n \<le> \<lfloor>t\<rfloor>" by (simp add: le_floor_iff)
  then show ?thesis by (auto simp: half_even_def)
qed

lemma bitlen_power_int:
  assumes "0 < n"
  shows "(2::real) powi (bitlen n - 1) \<le> of_int n" and "real_of_int n + 1 \<le> 2 powi bitlen n"
proof -
  from bitlen_bounds [OF assms] have lo: "2 ^ nat (bitlen n - 1) \<le> n" and hi: "n < 2 ^ nat (bitlen n)"
    by simp_all
  have pos: "0 < bitlen n"
  proof (rule ccontr)
    assume "\<not> 0 < bitlen n"
    then have "nat (bitlen n) = 0" by simp
    with hi assms show False by simp
  qed
  have "real_of_int (2 ^ nat (bitlen n - 1)) \<le> of_int n"
    using lo by (simp only: of_int_le_iff)
  then show "(2::real) powi (bitlen n - 1) \<le> of_int n"
    using pos by (simp add: power_int_def)
  from hi have "n + 1 \<le> 2 ^ nat (bitlen n)" by simp
  then have "real_of_int (n + 1) \<le> of_int (2 ^ nat (bitlen n))"
    by (simp only: of_int_le_iff)
  then show "real_of_int n + 1 \<le> 2 powi bitlen n"
    using pos by (simp add: power_int_def)
qed

lemma binade_bounds:
  assumes "x \<noteq> 0"
  shows "2 powi binade x \<le> \<bar>x\<bar>" and "\<bar>x\<bar> < 2 powi (binade x + 1)"
proof -
  have "2 powi binade x \<le> \<bar>x\<bar> \<and> \<bar>x\<bar> < 2 powi (binade x + 1)"
  proof (cases "1 \<le> \<bar>x\<bar>")
    case True
    define n where "n = \<lfloor>\<bar>x\<bar>\<rfloor>"
    have n: "0 < n" using True by (simp add: n_def)
    have b: "binade x = bitlen n - 1"
      using True by (simp add: binade_def n_def)
    have "of_int n \<le> \<bar>x\<bar>" "\<bar>x\<bar> < of_int n + 1"
      unfolding n_def by linarith+
    with bitlen_power_int [OF n] show ?thesis
      by (simp add: b)
  next
    case False
    define y where "y = 1 / \<bar>x\<bar>"
    define n where "n = \<lceil>y\<rceil> - 1"
    have x: "0 < \<bar>x\<bar>" "\<bar>x\<bar> < 1" using assms False by simp_all
    then have y: "1 < y" by (simp add: y_def)
    then have n: "0 < n" unfolding n_def by linarith
    have b: "binade x = - bitlen n"
      using False by (simp add: binade_def n_def y_def)
    have yn: "of_int n < y" "y \<le> of_int n + 1"
      unfolding n_def by linarith+
    note bl = bitlen_power_int [OF n]
    have p1: "0 < (2::real) powi (bitlen n - 1)" and p2: "0 < (2::real) powi bitlen n"
      by simp_all
    have "y \<le> 2 powi bitlen n"
      using yn(2) bl(2) by linarith
    then have "1 \<le> \<bar>x\<bar> * 2 powi bitlen n"
      using x(1) by (simp add: y_def field_simps)
    then have lo: "2 powi (- bitlen n) \<le> \<bar>x\<bar>"
      using p2 by (simp add: power_int_minus field_simps)
    have "2 powi (bitlen n - 1) < y"
      using yn(1) bl(1) by linarith
    then have "\<bar>x\<bar> * 2 powi (bitlen n - 1) < 1"
      using x(1) by (simp add: y_def field_simps)
    then have "\<bar>x\<bar> < 1 / 2 powi (bitlen n - 1)"
      using p1 by (simp only: pos_less_divide_eq)
    also have "1 / 2 powi (bitlen n - 1) = (2::real) powi (- (bitlen n - 1))"
      by (simp only: power_int_minus inverse_eq_divide)
    also have "- (bitlen n - 1) = - bitlen n + 1"
      by simp
    finally have hi: "\<bar>x\<bar> < 2 powi (- bitlen n + 1)" .
    from lo hi show ?thesis by (simp add: b)
  qed
  then show "2 powi binade x \<le> \<bar>x\<bar>" and "\<bar>x\<bar> < 2 powi (binade x + 1)"
    by simp_all
qed

lemma binade_less:
  assumes "x \<noteq> 0" and "\<bar>x\<bar> < 2 powi E"
  shows "binade x < E"
proof (rule ccontr)
  assume "\<not> binade x < E"
  then have "E \<le> binade x" by simp
  then have "(2::real) powi E \<le> 2 powi binade x"
    by (intro power_int_increasing) simp_all
  with binade_bounds(1) [OF assms(1)] assms(2) show False by linarith
qed

lemma binade_eq:
  assumes "2 powi e \<le> \<bar>x\<bar>" and "\<bar>x\<bar> < 2 powi (e + 1)"
  shows "binade x = e"
proof -
  have nz: "x \<noteq> 0"
    using assms(1) by (smt (verit) zero_less_power_int)
  have "binade x < e + 1"
    using nz assms(2) by (rule binade_less)
  moreover have "e \<le> binade x"
  proof (rule ccontr)
    assume "\<not> e \<le> binade x"
    then have "binade x + 1 \<le> e" by simp
    then have "(2::real) powi (binade x + 1) \<le> 2 powi e"
      by (intro power_int_increasing) simp_all
    with binade_bounds(2) [OF nz] assms(1) show False by linarith
  qed
  ultimately show ?thesis by simp
qed

lemma ulp_exponent_le:
  assumes "x \<noteq> 0" and "\<bar>x\<bar> < 2 powi (p + 53)" and "- 1074 \<le> p"
  shows "ulp_exponent x \<le> p"
  using binade_less [OF assms(1,2)] assms(3) by (simp add: ulp_exponent_def)

lemma binary64_0: "binary64 0 = 0"
  by (simp add: binary64_def)

text \<open>The rounding error is at most half a unit in the last place.\<close>

lemma binary64_error: "\<bar>binary64 x - x\<bar> \<le> 2 powi ulp_exponent x / 2"
proof (cases "x = 0")
  case True
  then show ?thesis by (simp add: binary64_0)
next
  case False
  define u :: real where "u = 2 powi ulp_exponent x"
  have u: "0 < u" by (simp add: u_def)
  have "binary64 x - x = (of_int (half_even (x / u)) - x / u) * u"
    using False u by (simp add: binary64_def u_def field_simps)
  then have "\<bar>binary64 x - x\<bar> = \<bar>of_int (half_even (x / u)) - x / u\<bar> * u"
    using u by (simp add: abs_mult)
  also have "\<dots> \<le> 1 / 2 * u"
    using half_even_error [of "x / u"] u by (intro mult_right_mono) simp_all
  finally show ?thesis by (simp add: u_def)
qed

lemma binary64_error_below:
  assumes "\<bar>x\<bar> < 2 powi (p + 53)" and "- 1074 \<le> p"
  shows "\<bar>binary64 x - x\<bar> \<le> 2 powi p / 2"
proof (cases "x = 0")
  case True
  then show ?thesis by (simp add: binary64_0)
next
  case False
  have "(2::real) powi ulp_exponent x \<le> 2 powi p"
    using ulp_exponent_le [OF False assms] by (intro power_int_increasing) simp_all
  with binary64_error [of x] show ?thesis by simp
qed

text \<open>
  Rounding is the identity on the multiples of the unit in the last place, and never
  crosses one of them: a bound that is such a multiple is kept.
\<close>

lemma ulp_multiple:
  assumes "ulp_exponent x \<le> p"
  obtains k :: nat where "(2::real) powi p = 2 powi ulp_exponent x * 2 ^ k"
proof -
  define k where "k = nat (p - ulp_exponent x)"
  have p: "p = ulp_exponent x + int k" using assms by (simp add: k_def)
  have "(2::real) powi p = 2 powi ulp_exponent x * 2 ^ k"
    by (subst p, subst power_int_add) simp_all
  then show ?thesis by (rule that)
qed

lemma binary64_le:
  assumes "x \<le> of_int b * 2 powi p" and "\<bar>x\<bar> < 2 powi (p + 53)" and "- 1074 \<le> p"
  shows "binary64 x \<le> of_int b * 2 powi p"
proof (cases "x = 0")
  case True
  with assms(1) show ?thesis by (simp add: binary64_0)
next
  case False
  from ulp_exponent_le [OF False assms(2,3)] obtain k :: nat
    where pw: "(2::real) powi p = 2 powi ulp_exponent x * 2 ^ k"
    by (rule ulp_multiple)
  have "x / 2 powi ulp_exponent x \<le> of_int (b * 2 ^ k)"
    using assms(1) pw by (simp add: field_simps)
  then have "half_even (x / 2 powi ulp_exponent x) \<le> b * 2 ^ k"
    by (rule half_even_le)
  then have "real_of_int (half_even (x / 2 powi ulp_exponent x)) \<le> of_int (b * 2 ^ k)"
    by (simp only: of_int_le_iff)
  then have "binary64 x \<le> of_int (b * 2 ^ k) * 2 powi ulp_exponent x"
    using False by (simp add: binary64_def del: of_int_mult of_int_power)
  then show ?thesis using pw by (simp add: mult_ac)
qed

lemma binary64_ge:
  assumes "of_int b * 2 powi p \<le> x" and "\<bar>x\<bar> < 2 powi (p + 53)" and "- 1074 \<le> p"
  shows "of_int b * 2 powi p \<le> binary64 x"
proof (cases "x = 0")
  case True
  with assms(1) show ?thesis by (simp add: binary64_0)
next
  case False
  from ulp_exponent_le [OF False assms(2,3)] obtain k :: nat
    where pw: "(2::real) powi p = 2 powi ulp_exponent x * 2 ^ k"
    by (rule ulp_multiple)
  have "of_int (b * 2 ^ k) \<le> x / 2 powi ulp_exponent x"
    using assms(1) pw by (simp add: field_simps)
  then have "b * 2 ^ k \<le> half_even (x / 2 powi ulp_exponent x)"
    by (rule half_even_ge)
  then have "of_int (b * 2 ^ k) \<le> real_of_int (half_even (x / 2 powi ulp_exponent x))"
    by (simp only: of_int_le_iff)
  then have "of_int (b * 2 ^ k) * 2 powi ulp_exponent x \<le> binary64 x"
    using False by (simp add: binary64_def del: of_int_mult of_int_power)
  then show ?thesis using pw by (simp add: mult_ac)
qed

lemma binary64_exact:
  assumes "\<bar>b\<bar> < 2 ^ 53" and "- 1074 \<le> p"
  shows "binary64 (of_int b * 2 powi p) = of_int b * 2 powi p"
proof -
  let ?x = "real_of_int b * 2 powi p"
  have "\<bar>?x\<bar> = real_of_int \<bar>b\<bar> * 2 powi p"
    by (simp add: abs_mult)
  also have "\<dots> < 2 ^ 53 * 2 powi p"
    using assms(1)
    by (intro mult_strict_right_mono) (simp_all add: of_int_less_numeral_power_cancel_iff)
  also have "\<dots> = 2 powi (p + 53)"
    by (subst power_int_add) (simp_all add: mult.commute)
  finally have small: "\<bar>?x\<bar> < 2 powi (p + 53)" .
  have "binary64 ?x \<le> ?x"
    by (rule binary64_le [OF order_refl small assms(2)])
  moreover have "?x \<le> binary64 ?x"
    by (rule binary64_ge [OF order_refl small assms(2)])
  ultimately show ?thesis by simp
qed

lemma binary64_of_int: "\<bar>i\<bar> < 2 ^ 53 \<Longrightarrow> binary64 (of_int i) = of_int i"
  using binary64_exact [of i 0] by simp

lemma binary64_half_integer:
  "\<bar>i\<bar> < 2 ^ 53 \<Longrightarrow> binary64 (of_int i / 2) = of_int i / 2"
  using binary64_exact [of i "- 1"] by (simp add: power_int_minus field_simps)

lemma binary64_nonneg: "0 \<le> x \<Longrightarrow> 0 \<le> binary64 x"
proof -
  assume x: "0 \<le> x"
  have "0 \<le> half_even (x / 2 powi ulp_exponent x)"
    using x by (intro half_even_ge) simp
  then show ?thesis by (simp add: binary64_def)
qed

text \<open>The value of \<open>binary64\<close> at a number whose binade is known.\<close>

lemma binary64_in_binade:
  assumes "2 powi e \<le> \<bar>x\<bar>" and "\<bar>x\<bar> < 2 powi (e + 1)" and "- 1022 \<le> e"
  shows "binary64 x = of_int (half_even (x / 2 powi (e - 52))) * 2 powi (e - 52)"
proof -
  have "x \<noteq> 0" using assms(1) by (smt (verit) zero_less_power_int)
  moreover have "ulp_exponent x = e - 52"
    using binade_eq [OF assms(1,2)] assms(3) by (simp add: ulp_exponent_def)
  ultimately show ?thesis by (simp add: binary64_def)
qed

text \<open>
  The decimal literals of the classifiers that are not binary64 values themselves, and
  the reading \<^verbatim>\<open>0.7\<close>. \<^verbatim>\<open>0.6\<close> and \<^verbatim>\<open>0.7\<close> are rounded down, \<^verbatim>\<open>0.4\<close>, \<^verbatim>\<open>0.8\<close> and \<^verbatim>\<open>0.65\<close>
  are rounded up.
\<close>

lemma literal_0_6: "binary64 0.6 = 5404319552844595 / 2 ^ 53"
  by (subst binary64_in_binade [where e = "- 1"])
    (simp_all add: half_even_def power_int_minus field_simps)

lemma literal_0_4: "binary64 0.4 = 3602879701896397 / 2 ^ 53"
  by (subst binary64_in_binade [where e = "- 2"])
    (simp_all add: half_even_def power_int_minus field_simps)

lemma literal_0_8: "binary64 0.8 = 3602879701896397 / 2 ^ 52"
  by (subst binary64_in_binade [where e = "- 1"])
    (simp_all add: half_even_def power_int_minus field_simps)

lemma literal_0_65: "binary64 0.65 = 5854679515581645 / 2 ^ 53"
  by (subst binary64_in_binade [where e = "- 1"])
    (simp_all add: half_even_def power_int_minus field_simps)

lemma literal_0_7: "binary64 0.7 = 3152519739159347 / 2 ^ 52"
  by (subst binary64_in_binade [where e = "- 1"])
    (simp_all add: half_even_def power_int_minus field_simps)

lemma literal_values:
  "binary64 (3 / 5) = 5404319552844595 / 2 ^ 53"
  "binary64 (2 / 5) = 3602879701896397 / 2 ^ 53"
  "binary64 (4 / 5) = 3602879701896397 / 2 ^ 52"
  "binary64 (13 / 20) = 5854679515581645 / 2 ^ 53"
  "binary64 (7 / 10) = 3152519739159347 / 2 ^ 52"
  using literal_0_6 literal_0_4 literal_0_8 literal_0_65 literal_0_7 by simp_all

lemmas literals =
  literal_0_6 literal_0_4 literal_0_8 literal_0_65 literal_0_7 literal_values

lemma to_float_finite:
  assumes "\<bar>binary64 x\<bar> \<le> 2 ^ 53"
  shows "to_float x = Fin (binary64 x)"
proof -
  have "(2::real) ^ 53 < 2 ^ 1024"
    by (rule power_strict_increasing) simp_all
  with assms have "\<not> 2 ^ 1024 \<le> binary64 x" and "\<not> binary64 x \<le> - (2 ^ 1024)"
    by linarith+
  then show ?thesis
    unfolding to_float_def by (simp only: if_False)
qed

lemma int_to_float_small:
  assumes "\<bar>i\<bar> < 2 ^ 53"
  shows "int_to_float i = Inr (of_int i)"
proof -
  have b: "binary64 (of_int i) = of_int i"
    using assms by (rule binary64_of_int)
  have "\<bar>real_of_int i\<bar> \<le> 2 ^ 53"
    using assms by (simp add: abs_le_iff of_int_le_numeral_power_cancel_iff
        of_int_minus [symmetric] del: of_int_minus) linarith
  then have "to_float (of_int i) = Fin (of_int i)"
    using to_float_finite [of "of_int i"] by (simp only: b)
  then show ?thesis by (simp add: int_to_float_def)
qed

lemma ndvi_color_float:
  "ndvi_color (PyFloat x) =
     Inr (if fgt x (binary64 0.6) then PyList [PyInt 0, PyInt 128, PyInt 0]
          else if fgt x (binary64 0.4) then PyList [PyInt 255, PyInt 165, PyInt 0]
          else PyList [PyInt 255, PyInt 0, PyInt 0])"
  by (simp add: ndvi_color_def py_gt_def)

lemma ndvi_color_static_float:
  "ndvi_color_static (PyFloat x) =
     Inr (if fgt x (binary64 0.6)
          then PyTuple [PyFloat (Fin 0), PyFloat (Fin (binary64 0.8)), PyFloat (Fin 0)]
          else if fgt x (binary64 0.4)
          then PyTuple [PyFloat (Fin 1), PyFloat (Fin (binary64 0.65)), PyFloat (Fin 0)]
          else PyTuple [PyFloat (Fin 1), PyFloat (Fin 0), PyFloat (Fin 0)])"
  by (simp add: ndvi_color_static_def py_gt_def)

lemma ndvi_color_in_category:
  "ndvi_color_in v (PyFloat x) =
     Inr (category_color v
       (if fgt x (binary64 0.6) then Healthy
        else if fgt x (binary64 0.4) then Moderate else Stressed))"
  by (cases v) (simp_all add: ndvi_color_float ndvi_color_static_float)

lemma category_color_inj: "category_color v c = category_color v c' \<Longrightarrow> c = c'"
  by (cases v; cases c; cases c'; simp add: literals)

subsection \<open>The classifier's thresholds\<close>

text \<open>
  Claim C1. The thresholds are the floats the literals \<^verbatim>\<open>0.6\<close> and \<^verbatim>\<open>0.4\<close> denote,
  5404319552844595 / 2^53 and 3602879701896397 / 2^53. For every finite input the
  classifier of every variant returns the colour of Healthy when the input is above the
  float 0.6, of Moderate when it is above the float 0.4 and at most the float 0.6, and of
  Stressed when it is at most the float 0.4, so each threshold itself falls in the lower
  category; plus infinity is Healthy and minus infinity is Stressed. The branches are
  tried in that order, and every float (NaN included) gets the colour of exactly one
  category.
\<close>

theorem ndvi_color_thresholds:
  "(binary64 0.6 < r \<longrightarrow> ndvi_color_in v (PyFloat (Fin r)) = Inr (category_color v Healthy)) \<and>
   (binary64 0.4 < r \<and> r \<le> binary64 0.6 \<longrightarrow>
      ndvi_color_in v (PyFloat (Fin r)) = Inr (category_color v Moderate)) \<and>
   (r \<le> binary64 0.4 \<longrightarrow> ndvi_color_in v (PyFloat (Fin r)) = Inr (category_color v Stressed)) \<and>
   ndvi_color_in v (PyFloat PInf) = Inr (category_color v Healthy) \<and>
   ndvi_color_in v (PyFloat NInf) = Inr (category_color v Stressed) \<and>
   (\<exists>!c. ndvi_color_in v (PyFloat x) = Inr (category_color v c)) \<and>
   binary64 0.6 = 5404319552844595 / 2 ^ 53 \<and>
   binary64 0.4 = 3602879701896397 / 2 ^ 53"
proof -
  have order: "binary64 0.4 < binary64 0.6"
    by (simp add: literals)
  have one: "\<exists>!c. ndvi_color_in v (PyFloat x) = Inr (category_color v c)"
    unfolding ndvi_color_in_category by (auto dest: category_color_inj)
  have "binary64 0.6 < r \<longrightarrow> ndvi_color_in v (PyFloat (Fin r)) = Inr (category_color v Healthy)"
    by (simp add: ndvi_color_in_category)
  moreover have "binary64 0.4 < r \<and> r \<le> binary64 0.6 \<longrightarrow>
      ndvi_color_in v (PyFloat (Fin r)) = Inr (category_color v Moderate)"
    by (simp add: ndvi_color_in_category)
  moreover have "r \<le> binary64 0.4 \<longrightarrow>
      ndvi_color_in v (PyFloat (Fin r)) = Inr (category_color v Stressed)"
    using order by (simp add: ndvi_color_in_category)
  moreover have "ndvi_color_in v (PyFloat PInf) = Inr (category_color v Healthy)"
    "ndvi_color_in v (PyFloat NInf) = Inr (category_color v Stressed)"
    by (simp_all add: ndvi_color_in_category)
  ultimately show ?thesis
    using one literal_0_6 literal_0_4 by blast
qed

theorem ndvi_color_thresholds_witness:
  "binary64 0.6 < 0.75 \<and>
   ndvi_color_in App (PyFloat (Fin 0.75)) = Inr (PyList [PyInt 0, PyInt 128, PyInt 0]) \<and>
   binary64 0.4 < binary64 0.6 \<and>
   ndvi_color_in App_wind (PyFloat (Fin (binary64 0.6))) =
     Inr (PyList [PyInt 255, PyInt 165, PyInt 0]) \<and>
   binary64 0.4 < 0.5 \<and> 0.5 \<le> binary64 0.6 \<and>
   ndvi_color_in App_wind_text (PyFloat (Fin 0.5)) =
     Inr (PyList [PyInt 255, PyInt 165, PyInt 0]) \<and>
   ndvi_color_in App_wind_static (PyFloat (Fin (binary64 0.4))) =
     Inr (PyTuple [PyFloat (Fin 1), PyFloat (Fin 0), PyFloat (Fin 0)])"
  using ndvi_color_thresholds [of "0.75" App] ndvi_color_thresholds [of "binary64 0.6" App_wind]
    ndvi_color_thresholds [of "0.5" App_wind_text]
    ndvi_color_thresholds [of "binary64 0.4" App_wind_static]
  by (simp add: literal_values)

text \<open>
  Claim C6. NaN, the value pandas gives a missing reading, is classified as Stressed and
  nothing is raised: a comparison of NaN against any threshold is false, so both
  comparisons of the classifier fail and the last branch is taken.
\<close>

theorem ndvi_color_nan:
  "py_gt (PyFloat NaN) c = Inr False \<and>
   py_gt (PyFloat NaN) (binary64 0.6) = Inr False \<and>
   py_gt (PyFloat NaN) (binary64 0.4) = Inr False \<and>
   ndvi_color_in v (PyFloat NaN) = Inr (category_color v Stressed)"
  by (simp add: py_gt_def ndvi_color_in_category)

subsection \<open>The display colours\<close>

text \<open>
  Claim C3 says that every variant shows Healthy as (0,128,0), Moderate as (255,165,0) and
  Stressed as (255,0,0), with integer channels from 0 to 255. The static variant does not:
  for a Healthy reading it returns the float triple (0.0, 0.8, 0.0), whose green channel
  (the float 0.8, which is 3602879701896397 / 2^52) is neither 128 nor 128/255 and is no
  integer.
\<close>

theorem static_color_counterexample:
  "ndvi_color_in App_wind_static (PyFloat (Fin (binary64 0.7))) =
     Inr (PyTuple [PyFloat (Fin 0.0), PyFloat (Fin (binary64 0.8)), PyFloat (Fin 0.0)]) \<and>
   ndvi_color_in App_wind_static (PyFloat (Fin (binary64 0.7)))
     \<noteq> Inr (PyList [PyInt 0, PyInt 128, PyInt 0]) \<and>
   ndvi_color_in App_wind_static (PyFloat (Fin (binary64 0.7)))
     \<noteq> Inr (PyTuple [PyInt 0, PyInt 128, PyInt 0]) \<and>
   binary64 0.8 = 3602879701896397 / 2 ^ 52 \<and>
   binary64 0.8 \<noteq> 128 \<and> binary64 0.8 \<noteq> 128 / 255 \<and> binary64 0.8 \<notin> \<int>"
proof -
  have "binary64 0.8 \<notin> \<int>"
  proof
    assume "binary64 0.8 \<in> \<int>"
    then obtain k :: int where k: "binary64 0.8 = of_int k" by (auto elim: Ints_cases)
    then have "0 < (of_int k :: real)" "(of_int k :: real) < 1"
      using literal_0_8 by simp_all
    then have "0 < k" "k < 1" by simp_all
    then show False by simp
  qed
  moreover have "binary64 0.6 < binary64 0.7"
    by (simp add: literals)
  ultimately show ?thesis
    using literal_0_8 by (simp add: ndvi_color_static_float)
qed

lemma ndvi_color_range:
  assumes "ndvi_color n = Inr c"
  shows "c \<in> {PyList [PyInt 0, PyInt 128, PyInt 0], PyList [PyInt 255, PyInt 165, PyInt 0],
           PyList [PyInt 255, PyInt 0, PyInt 0]}"
  using assms by (cases "num n") (auto simp: ndvi_color_def py_gt_def split: if_splits)

lemma ndvi_color_static_range:
  assumes "ndvi_color_static n = Inr c"
  shows "c \<in> {PyTuple [PyFloat (Fin 0), PyFloat (Fin (binary64 0.8)), PyFloat (Fin 0)],
           PyTuple [PyFloat (Fin 1), PyFloat (Fin (binary64 0.65)), PyFloat (Fin 0)],
           PyTuple [PyFloat (Fin 1), PyFloat (Fin 0), PyFloat (Fin 0)]}"
  using assms by (cases "num n") (auto simp: ndvi_color_static_def py_gt_def split: if_splits)


text \<open>
  Claim C3, amended. In the five pydeck variants (\<^verbatim>\<open>app\<close>, \<^verbatim>\<open>app_weather\<close>, \<^verbatim>\<open>app_wind\<close>,
  \<^verbatim>\<open>app_wind_icon\<close>, \<^verbatim>\<open>app_wind_text\<close>) a Healthy reading is shown as [0, 128, 0], a
  Moderate one as [255, 165, 0] and a Stressed one as [255, 0, 0], and whatever the
  classifier returns has three integer channels from 0 to 255. In the static variant the
  three colours are the float triples (0.0, 0.8, 0.0), (1.0, 0.65, 0.0) and
  (1.0, 0.0, 0.0), with every channel from 0 to 1. Either classifier is a function of its
  argument alone.
\<close>

theorem display_colors_by_variant:
  "(v \<noteq> App_wind_static \<longrightarrow>
      ndvi_color_in v (PyFloat x) =
        Inr (PyList (if fgt x (binary64 0.6) then [PyInt 0, PyInt 128, PyInt 0]
                     else if fgt x (binary64 0.4) then [PyInt 255, PyInt 165, PyInt 0]
                     else [PyInt 255, PyInt 0, PyInt 0])) \<and>
      (ndvi_color_in v n = Inr c \<longrightarrow>
         (\<exists>r g b. c = PyList [PyInt r, PyInt g, PyInt b] \<and> {r, g, b} \<subseteq> {0..255}))) \<and>
   ndvi_color_in App_wind_static (PyFloat x) =
     Inr (PyTuple (if fgt x (binary64 0.6)
                   then [PyFloat (Fin 0.0), PyFloat (Fin (binary64 0.8)), PyFloat (Fin 0.0)]
                   else if fgt x (binary64 0.4)
                   then [PyFloat (Fin 1.0), PyFloat (Fin (binary64 0.65)), PyFloat (Fin 0.0)]
                   else [PyFloat (Fin 1.0), PyFloat (Fin 0.0), PyFloat (Fin 0.0)])) \<and>
   (ndvi_color_in App_wind_static n = Inr c \<longrightarrow>
      (\<exists>r g b. c = PyTuple [PyFloat (Fin r), PyFloat (Fin g), PyFloat (Fin b)] \<and>
         {r, g, b} \<subseteq> {0..1}))"
proof -
  have list: "ndvi_color_in v = ndvi_color" if "v \<noteq> App_wind_static"
    using that by (cases v) simp_all
  have "\<exists>r g b. c = PyList [PyInt r, PyInt g, PyInt b] \<and> {r, g, b} \<subseteq> {0..255}"
    if "ndvi_color n = Inr c"
    using ndvi_color_range [OF that] by auto
  moreover have "\<exists>r g b. c = PyTuple [PyFloat (Fin r), PyFloat (Fin g), PyFloat (Fin b)] \<and>
      {r, g, b} \<subseteq> {0..1}" if "ndvi_color_static n = Inr c"
  proof -
    from ndvi_color_static_range [OF that] consider
      "c = PyTuple [PyFloat (Fin 0), PyFloat (Fin (binary64 0.8)), PyFloat (Fin 0)]"
      | "c = PyTuple [PyFloat (Fin 1), PyFloat (Fin (binary64 0.65)), PyFloat (Fin 0)]"
      | "c = PyTuple [PyFloat (Fin 1), PyFloat (Fin 0), PyFloat (Fin 0)]"
      by blast
    then show ?thesis
    proof cases
      case 1
      then show ?thesis
        by (intro exI [of _ 0] exI [of _ "binary64 0.8"]) (simp add: literals)
    next
      case 2
      then show ?thesis
        by (intro exI [of _ 1] exI [of _ "binary64 0.65"] exI [of _ 0]) (simp add: literals)
    next
      case 3
      then show ?thesis by (intro exI [of _ 1] exI [of _ 0]) simp
    qed
  qed
  ultimately show ?thesis
    by (simp add: list ndvi_color_float ndvi_color_static_float)
qed

theorem display_colors_by_variant_witness:
  "App_wind_text \<noteq> App_wind_static \<and>
   ndvi_color_in App_wind_text (PyFloat (Fin 0.5)) = Inr (PyList [PyInt 255, PyInt 165, PyInt 0]) \<and>
   ndvi_color_in App_wind_static (PyFloat (Fin 0.5)) =
     Inr (PyTuple [PyFloat (Fin 1.0), PyFloat (Fin (binary64 0.65)), PyFloat (Fin 0.0)])"
  using display_colors_by_variant [of App_wind_text "Fin 0.5"]
  by (simp add: literals)

subsection \<open>The glyph buckets\<close>

lemma bucket_floor:
  fixes x :: real
  shows "\<lfloor>(x - 360 * of_int \<lfloor>x / 360\<rfloor>) / 45 + 1 / 2\<rfloor> = round (x / 45) - 8 * \<lfloor>x / 360\<rfloor>"
proof -
  have "(x - 360 * of_int \<lfloor>x / 360\<rfloor>) / 45 + 1 / 2 = (x / 45 + 1 / 2) - of_int (8 * \<lfloor>x / 360\<rfloor>)"
    by (simp add: field_simps)
  then show ?thesis
    unfolding round_def by (simp only: floor_diff_of_int)
qed

lemma fmod_range:
  fixes x :: real
  shows "0 \<le> x - 360 * of_int \<lfloor>x / 360\<rfloor>" and "x - 360 * of_int \<lfloor>x / 360\<rfloor> < 360"
proof -
  have "of_int \<lfloor>x / 360\<rfloor> \<le> x / 360" by (rule of_int_floor_le)
  then show "0 \<le> x - 360 * of_int \<lfloor>x / 360\<rfloor>" by simp
  have "x / 360 < of_int \<lfloor>x / 360\<rfloor> + 1" by linarith
  then show "x - 360 * of_int \<lfloor>x / 360\<rfloor> < 360" by (simp add: field_simps)
qed

lemma dirs_index: "0 \<le> j \<Longrightarrow> j < 8 \<Longrightarrow> py_index dirs j = Inr (dirs ! nat j)"
  by (simp add: py_index_def dirs_def)

lemma mod8_shift: "(a - 8 * b) mod 8 = a mod (8 :: int)"
  by (metis mod_diff_right_eq mod_mult_self1_is_0 diff_zero mod_mod_trivial)

lemma nth_dirs_mem: "0 \<le> j \<Longrightarrow> j < 8 \<Longrightarrow> dirs ! nat j \<in> set dirs"
  by (rule nth_mem) (simp add: dirs_def)

text \<open>
  The reduction modulo 360. A direction that is not negative is reduced exactly; a
  negative one is reduced with one rounding, of the sum \<^verbatim>\<open>mod += wx\<close>, whose error is at
  most \<open>2 ^ - 45\<close>. Either way the result is in the closed interval from 0 to 360.
\<close>

lemma fmod_360: "fmod (Fin x) 360 = Fin (reduced x)"
proof (cases "0 \<le> x")
  case True
  then have "toward_zero (x / 360) = \<lfloor>x / 360\<rfloor>"
    by (simp add: toward_zero_def)
  moreover have "\<not> x - of_int \<lfloor>x / 360\<rfloor> * 360 < 0"
    using fmod_range(1) [of x] by (simp add: mult.commute)
  ultimately show ?thesis
    using True by (simp add: reduced_def mult.commute)
next
  case False
  then have tz: "toward_zero (x / 360) = \<lceil>x / 360\<rceil>"
    by (simp add: toward_zero_def)
  define y where "y = x - 360 * of_int \<lfloor>x / 360\<rfloor>"
  have y: "0 \<le> y" "y < 360"
    using fmod_range [of x] by (simp_all add: y_def)
  show ?thesis
  proof (cases "x / 360 = of_int \<lfloor>x / 360\<rfloor>")
    case True
    then have "\<lceil>x / 360\<rceil> = \<lfloor>x / 360\<rfloor>"
      by (simp add: ceiling_altdef)
    moreover have "y = 0"
      using True by (simp add: y_def)
    ultimately show ?thesis
      using False tz by (simp add: reduced_def y_def binary64_0 mult.commute)
  next
    case notint: False
    then have c: "\<lceil>x / 360\<rceil> = \<lfloor>x / 360\<rfloor> + 1"
      by (simp add: ceiling_altdef)
    have "y \<noteq> 0"
      using notint by (auto simp: y_def field_simps)
    with y have "0 < y" by simp
    have r: "x - of_int \<lceil>x / 360\<rceil> * 360 = y - 360"
      by (simp add: c y_def algebra_simps)
    have "0 \<le> binary64 y"
      using y(1) by (rule binary64_nonneg)
    moreover have "binary64 y \<le> of_int 360 * 2 powi 0"
      using y by (intro binary64_le) simp_all
    ultimately have "\<bar>binary64 y\<bar> \<le> 2 ^ 53" by simp
    then have "to_float y = Fin (binary64 y)"
      by (rule to_float_finite)
    then show ?thesis
      using False \<open>0 < y\<close> y(2) by (simp add: tz r reduced_def y_def [symmetric])
  qed
qed

lemma reduced_range: "0 \<le> reduced x" "reduced x \<le> 360"
proof -
  define y where "y = x - 360 * of_int \<lfloor>x / 360\<rfloor>"
  have y: "0 \<le> y" "y < 360"
    using fmod_range [of x] by (simp_all add: y_def)
  have "0 \<le> binary64 y"
    using y(1) by (rule binary64_nonneg)
  moreover have "binary64 y \<le> of_int 360 * 2 powi 0"
    using y by (intro binary64_le) simp_all
  ultimately show "0 \<le> reduced x" "reduced x \<le> 360"
    using y by (simp_all add: reduced_def y_def [symmetric])
qed

lemma reduced_ge:
  assumes "of_int b / 2 \<le> x - 360 * of_int \<lfloor>x / 360\<rfloor>"
  shows "of_int b / 2 \<le> reduced x"
proof -
  define y where "y = x - 360 * of_int \<lfloor>x / 360\<rfloor>"
  have y: "0 \<le> y" "y < 360"
    using fmod_range [of x] by (simp_all add: y_def)
  have "of_int b * 2 powi (- 1) \<le> binary64 y"
    using assms y by (intro binary64_ge) (simp_all add: y_def [symmetric] power_int_minus)
  then have "of_int b / 2 \<le> binary64 y"
    by (simp add: power_int_minus field_simps)
  with assms show ?thesis
    by (simp add: reduced_def y_def [symmetric])
qed

lemma reduced_le: "reduced x \<le> x - 360 * of_int \<lfloor>x / 360\<rfloor> + 1 / 2 ^ 45"
proof -
  define y where "y = x - 360 * of_int \<lfloor>x / 360\<rfloor>"
  have y: "0 \<le> y" "y < 360"
    using fmod_range [of x] by (simp_all add: y_def)
  have "\<bar>binary64 y - y\<bar> \<le> 2 powi (- 44) / 2"
    using y by (intro binary64_error_below) simp_all
  moreover have "(2::real) powi (- 44) / 2 = 1 / 2 ^ 45"
    by (simp add: power_int_minus)
  ultimately have "binary64 y \<le> y + 1 / 2 ^ 45"
    by linarith
  then show ?thesis
    by (simp add: reduced_def y_def [symmetric])
qed

text \<open>
  The steps after the reduction, on a remainder \<open>r\<close> from 0 to 360: the quotient is a
  float from 0 to 8, the sum a float from 0 to 8.5, and \<^verbatim>\<open>int\<close> takes its floor, so the
  index into the list is \<open>glyph_index r mod 8\<close>.
\<close>

lemma quotient_range:
  assumes "0 \<le> r" and "r \<le> 360"
  shows "0 \<le> binary64 (r / 45)" and "binary64 (r / 45) \<le> 8"
proof -
  show "0 \<le> binary64 (r / 45)"
    using assms(1) by (intro binary64_nonneg) simp
  have "binary64 (r / 45) \<le> of_int 8 * 2 powi 0"
    using assms by (intro binary64_le) simp_all
  then show "binary64 (r / 45) \<le> 8" by simp
qed

lemma sum_range:
  assumes "0 \<le> q" and "q \<le> 8"
  shows "0 \<le> binary64 (q + 1 / 2)" and "binary64 (q + 1 / 2) \<le> 17 / 2"
proof -
  show "0 \<le> binary64 (q + 1 / 2)"
    using assms(1) by (intro binary64_nonneg) simp
  have "binary64 (q + 1 / 2) \<le> of_int 17 * 2 powi (- 1)"
    using assms by (intro binary64_le) (simp_all add: power_int_minus)
  then show "binary64 (q + 1 / 2) \<le> 17 / 2"
    by (simp add: power_int_minus)
qed

lemma glyph_index_range:
  assumes "0 \<le> r" and "r \<le> 360"
  shows "0 \<le> glyph_index r" and "glyph_index r \<le> 8"
proof -
  note q = quotient_range [OF assms]
  note s = sum_range [OF q]
  show "0 \<le> glyph_index r"
    using s(1) by (simp add: glyph_index_def)
  have "binary64 (binary64 (r / 45) + 1 / 2) < 9"
    using s(2) by simp
  then have "glyph_index r < 9"
    unfolding glyph_index_def by (simp add: floor_less_iff)
  then show "glyph_index r \<le> 8" by simp
qed

lemma glyph_steps:
  assumes "0 \<le> r" and "r \<le> 360"
  shows "and_then (float_int (fadd_const (fdiv (Fin r) 45) (1 / 2))) (\<lambda>i. py_index dirs (i mod 8)) =
     Inr (dirs ! nat (glyph_index r mod 8))"
proof -
  note q = quotient_range [OF assms]
  note s = sum_range [OF q]
  have "fdiv (Fin r) 45 = Fin (binary64 (r / 45))"
    using q by (simp add: to_float_finite)
  moreover have "fadd_const (Fin (binary64 (r / 45))) (1 / 2) =
      Fin (binary64 (binary64 (r / 45) + 1 / 2))"
    using s by (simp add: to_float_finite)
  moreover have "float_int (Fin (binary64 (binary64 (r / 45) + 1 / 2))) = Inr (glyph_index r)"
    using s(1) by (simp add: toward_zero_def glyph_index_def)
  ultimately show ?thesis
    by (simp add: dirs_index)
qed

lemma arrow_float_index:
  "arrow_from_direction (PyFloat (Fin x)) = dirs ! nat (glyph_index (reduced x) mod 8)"
proof -
  have "int_to_float 360 = Inr 360"
    using int_to_float_small [of 360] by simp
  then have "py_mod (PyFloat (Fin x)) 360 = Inr (PyFloat (Fin (reduced x)))"
    by (simp add: fmod_360 del: fmod.simps)
  then show ?thesis
    using glyph_steps [OF reduced_range, of x]
    by (simp add: arrow_from_direction_def py_truediv_def)
qed

lemma arrow_int_index:
  "arrow_from_direction (PyInt i) = dirs ! nat (glyph_index (of_int (i mod 360)) mod 8)"
proof -
  have k: "0 \<le> i mod 360" "i mod 360 < 360"
    by simp_all
  then have "\<bar>i mod 360\<bar> < 2 ^ 53"
    by simp
  then have "int_to_float (i mod 360) = Inr (of_int (i mod 360))"
    by (rule int_to_float_small)
  moreover have "0 \<le> real_of_int (i mod 360)" "real_of_int (i mod 360) \<le> 360"
    using k by linarith+
  ultimately show ?thesis
    using glyph_steps [of "of_int (i mod 360)"]
    by (simp add: arrow_from_direction_def py_truediv_def)
qed

text \<open>
  The index is the floor of \<open>r / 45 + 1 / 2\<close> unless that number lies within \<open>2 ^ - 49\<close> below
  the next integer: the two roundings never cross the half integer and the integer below,
  which are floats, and add at most \<open>2 ^ - 50\<close> each. Whatever the remainder, the index is
  that floor or the integer after it.
\<close>

lemma glyph_index_bounds:
  assumes "0 \<le> r" and "r \<le> 360" and "of_int m \<le> r / 45 + 1 / 2"
  shows "m \<le> glyph_index r"
    and "binary64 (binary64 (r / 45) + 1 / 2) \<le> r / 45 + 1 / 2 + 1 / 2 ^ 49"
proof -
  define q where "q = binary64 (r / 45)"
  define s where "s = binary64 (q + 1 / 2)"
  have q: "0 \<le> q" "q \<le> 8"
    using quotient_range [OF assms(1,2)] by (simp_all add: q_def)
  have "of_int (2 * m - 1) * 2 powi (- 1) \<le> q"
    unfolding q_def using assms by (intro binary64_ge) (simp_all add: power_int_minus)
  then have q_ge: "of_int m \<le> q + 1 / 2"
    by (simp add: power_int_minus field_simps)
  have half_ulp: "(2::real) powi (- 49) / 2 = 1 / 2 ^ 50"
    by (simp add: power_int_minus)
  have "\<bar>q - r / 45\<bar> \<le> 2 powi (- 49) / 2"
    unfolding q_def using assms by (intro binary64_error_below) simp_all
  with half_ulp have q_le: "q \<le> r / 45 + 1 / 2 ^ 50"
    by linarith
  have "of_int m * 2 powi 0 \<le> s"
    unfolding s_def using q q_ge by (intro binary64_ge) simp_all
  then have "of_int m \<le> s" by simp
  then show "m \<le> glyph_index r"
    by (simp add: glyph_index_def q_def s_def le_floor_iff)
  have "\<bar>s - (q + 1 / 2)\<bar> \<le> 2 powi (- 49) / 2"
    unfolding s_def using q by (intro binary64_error_below) simp_all
  with half_ulp have "s \<le> q + 1 / 2 + 1 / 2 ^ 50"
    by linarith
  with q_le show "binary64 (binary64 (r / 45) + 1 / 2) \<le> r / 45 + 1 / 2 + 1 / 2 ^ 49"
    by (simp add: q_def s_def)
qed

lemma glyph_index_eq:
  assumes "0 \<le> r" and "r \<le> 360" and "of_int m \<le> r / 45 + 1 / 2"
    and "r / 45 + 1 / 2 < of_int m + 1 - 1 / 2 ^ 49"
  shows "glyph_index r = m"
proof -
  have "binary64 (binary64 (r / 45) + 1 / 2) < of_int (m + 1)"
    using glyph_index_bounds(2) [OF assms(1,2,3)] assms(4) by simp
  then have "glyph_index r < m + 1"
    unfolding glyph_index_def by (simp only: floor_less_iff)
  with glyph_index_bounds(1) [OF assms(1,2,3)] show ?thesis by simp
qed

lemma glyph_index_next:
  assumes "0 \<le> r" and "r \<le> 360" and "of_int m \<le> r / 45 + 1 / 2"
    and "r / 45 + 1 / 2 < of_int m + 1 + 1 / 2 ^ 49"
  shows "glyph_index r = m \<or> glyph_index r = m + 1"
proof -
  have "binary64 (binary64 (r / 45) + 1 / 2) < of_int (m + 1) + 1"
    using glyph_index_bounds(2) [OF assms(1,2,3)] assms(4) by simp
  then have "glyph_index r < m + 1 + 1"
    unfolding glyph_index_def by (simp only: floor_less_iff)
  with glyph_index_bounds(1) [OF assms(1,2,3)] show ?thesis by linarith
qed

text \<open>
  A float direction gets the glyph of the bucket formula unless \<open>x / 45\<close> lies within
  \<open>2 ^ - 48\<close> below a half integer; there it gets that glyph or the next one clockwise.
\<close>

lemma reduced_bucket:
  fixes x :: real
  defines "m \<equiv> round (x / 45) - 8 * \<lfloor>x / 360\<rfloor>"
  shows "of_int m \<le> reduced x / 45 + 1 / 2"
    and "reduced x / 45 + 1 / 2 \<le> x / 45 + 1 / 2 - of_int (8 * \<lfloor>x / 360\<rfloor>) + 1 / 2 ^ 50"
    and "x / 45 + 1 / 2 - of_int (8 * \<lfloor>x / 360\<rfloor>) < of_int m + 1"
proof -
  define y where "y = x - 360 * of_int \<lfloor>x / 360\<rfloor>"
  have t: "y / 45 + 1 / 2 = x / 45 + 1 / 2 - of_int (8 * \<lfloor>x / 360\<rfloor>)"
    by (simp add: y_def field_simps)
  have fl: "\<lfloor>y / 45 + 1 / 2\<rfloor> = m"
    unfolding y_def m_def by (rule bucket_floor)
  then have "of_int m \<le> y / 45 + 1 / 2" and up: "y / 45 + 1 / 2 < of_int m + 1"
    by linarith+
  then have "of_int (90 * m - 45) / 2 \<le> y"
    by (simp add: field_simps)
  then have "of_int (90 * m - 45) / 2 \<le> reduced x"
    unfolding y_def by (rule reduced_ge)
  then show "of_int m \<le> reduced x / 45 + 1 / 2"
    by (simp add: field_simps)
  have "reduced x \<le> y + 1 / 2 ^ 45"
    unfolding y_def by (rule reduced_le)
  then have "reduced x / 45 + 1 / 2 \<le> y / 45 + 1 / 2 + 1 / 2 ^ 50"
    by (simp add: field_simps)
  then show "reduced x / 45 + 1 / 2 \<le> x / 45 + 1 / 2 - of_int (8 * \<lfloor>x / 360\<rfloor>) + 1 / 2 ^ 50"
    by (simp only: t)
  show "x / 45 + 1 / 2 - of_int (8 * \<lfloor>x / 360\<rfloor>) < of_int m + 1"
    using up by (simp only: t)
qed

lemma arrow_float:
  assumes "x / 45 - of_int (round (x / 45)) \<le> 1 / 2 - 1 / 2 ^ 48"
  shows "arrow_from_direction (PyFloat (Fin x)) = dirs ! nat (round (x / 45) mod 8)"
proof -
  define m where "m = round (x / 45) - 8 * \<lfloor>x / 360\<rfloor>"
  note b = reduced_bucket [of x, folded m_def]
  have "x / 45 + 1 / 2 - of_int (8 * \<lfloor>x / 360\<rfloor>) \<le> of_int m + 1 - 1 / 2 ^ 48"
    using assms by (simp add: m_def)
  with b(2) have "reduced x / 45 + 1 / 2 < of_int m + 1 - 1 / 2 ^ 49"
    by simp
  with b(1) have "glyph_index (reduced x) = m"
    by (intro glyph_index_eq reduced_range)
  then show ?thesis
    by (simp add: arrow_float_index m_def mod8_shift)
qed

lemma arrow_float_next:
  "arrow_from_direction (PyFloat (Fin x)) = dirs ! nat (round (x / 45) mod 8) \<or>
   arrow_from_direction (PyFloat (Fin x)) = dirs ! nat ((round (x / 45) + 1) mod 8)"
proof -
  define m where "m = round (x / 45) - 8 * \<lfloor>x / 360\<rfloor>"
  note b = reduced_bucket [of x, folded m_def]
  from b(2,3) have "reduced x / 45 + 1 / 2 < of_int m + 1 + 1 / 2 ^ 49"
    by simp
  with b(1) have "glyph_index (reduced x) = m \<or> glyph_index (reduced x) = m + 1"
    by (intro glyph_index_next reduced_range)
  moreover have "(m + 1) mod 8 = (round (x / 45) + 1) mod 8"
    using mod8_shift [of "round (x / 45) + 1" "\<lfloor>x / 360\<rfloor>"] by (simp add: m_def algebra_simps)
  ultimately show ?thesis
    by (auto simp: arrow_float_index m_def mod8_shift)
qed

lemma arrow_int:
  "arrow_from_direction (PyInt i) = dirs ! nat (round (real_of_int i / 45) mod 8)"
proof -
  define k where "k = i mod 360"
  define m where "m = (2 * k + 45) div 90"
  have k: "0 \<le> k" "k < 360"
    by (simp_all add: k_def)
  have split: "real_of_int (2 * k + 45) = of_int m * 90 + of_int ((2 * k + 45) mod 90)"
    unfolding m_def by (metis of_int_add of_int_mult of_int_numeral div_mult_mod_eq)
  have "0 \<le> (2 * k + 45) mod 90" "(2 * k + 45) mod 90 \<le> 89"
    by simp_all
  then have "0 \<le> real_of_int ((2 * k + 45) mod 90)" "real_of_int ((2 * k + 45) mod 90) \<le> 89"
    by (simp_all only: of_int_0_le_iff of_int_le_numeral_iff)
  with split have "of_int m * 90 \<le> real_of_int (2 * k + 45)"
    "real_of_int (2 * k + 45) \<le> of_int m * 90 + 89"
    by linarith+
  then have lo: "of_int m \<le> real_of_int k / 45 + 1 / 2"
    and hi: "real_of_int k / 45 + 1 / 2 \<le> of_int m + 89 / 90"
    by (simp_all add: field_simps)
  from hi have "real_of_int k / 45 + 1 / 2 < of_int m + 1 - 1 / 2 ^ 49"
    by simp
  with lo k have g: "glyph_index (of_int k) = m"
    by (intro glyph_index_eq) simp_all
  from lo hi have "\<lfloor>real_of_int k / 45 + 1 / 2\<rfloor> = m"
    by (intro floor_unique) simp_all
  moreover
  have r: "real_of_int k = of_int i - 360 * of_int (i div 360)"
    unfolding k_def by (metis minus_mult_div_eq_mod of_int_diff of_int_mult of_int_numeral)
  have "real_of_int k / 45 + 1 / 2 = (of_int i / 45 + 1 / 2) - of_int (8 * (i div 360))"
    by (simp add: r field_simps)
  then have "\<lfloor>real_of_int k / 45 + 1 / 2\<rfloor> = round (real_of_int i / 45) - 8 * (i div 360)"
    unfolding round_def by (simp only: floor_diff_of_int)
  ultimately have "m = round (real_of_int i / 45) - 8 * (i div 360)"
    by simp
  with g show ?thesis
    by (simp add: arrow_int_index k_def mod8_shift)
qed

lemma arrow_non_numeric:
  "num v = Inl e \<Longrightarrow> arrow_from_direction v = []"
  by (cases v) (simp_all add: arrow_from_direction_def)

lemma arrow_not_finite:
  "arrow_from_direction (PyFloat NaN) = []"
  "arrow_from_direction (PyFloat PInf) = []"
  "arrow_from_direction (PyFloat NInf) = []"
proof -
  have "int_to_float 360 = Inr 360"
    using int_to_float_small [of 360] by simp
  then show "arrow_from_direction (PyFloat NaN) = []"
    "arrow_from_direction (PyFloat PInf) = []"
    "arrow_from_direction (PyFloat NInf) = []"
    by (simp_all add: arrow_from_direction_def py_truediv_def)
qed

text \<open>
  Claim C5 says that the bucket index is \<open>round (direction / 45) mod 8\<close>. For a float just
  below a half-way point it is not. The float next below 22.5 is
  6333186975989759 / 2^48 (22.499999999999996): its quotient by 45 rounds to
  \<open>1 / 2 - 2 ^ - 54\<close>, the sum with 0.5 is a tie between two floats and rounds to 1.0, and
  the code returns entry 1, up-right, where \<open>round (direction / 45)\<close> is 0, up.
\<close>

theorem arrow_below_half_way:
  "arrow_from_direction (PyFloat (Fin (6333186975989759 / 2 ^ 48))) = glyph_up_right \<and>
   dirs ! nat (round ((6333186975989759 / 2 ^ 48) / 45 :: real) mod 8) = glyph_up \<and>
   binary64 (6333186975989759 / 2 ^ 48) = 6333186975989759 / 2 ^ 48 \<and>
   (22.5 :: real) - 6333186975989759 / 2 ^ 48 = 1 / 2 ^ 48"
proof -
  have q: "binary64 (6333186975989759 / 2 ^ 48 / 45) = 9007199254740991 / 2 ^ 54"
    by (subst binary64_in_binade [where e = "- 2"])
      (simp_all add: half_even_def power_int_minus field_simps)
  have s: "binary64 (9007199254740991 / 2 ^ 54 + 1 / 2) = 1"
    by (subst binary64_in_binade [where e = "- 1"])
      (simp_all add: half_even_def power_int_minus field_simps)
  have "reduced (6333186975989759 / 2 ^ 48) = 6333186975989759 / 2 ^ 48"
    by (simp add: reduced_def)
  moreover have "glyph_index (6333186975989759 / 2 ^ 48) = 1"
    unfolding glyph_index_def by (simp only: q s floor_one)
  ultimately have "arrow_from_direction (PyFloat (Fin (6333186975989759 / 2 ^ 48))) = glyph_up_right"
    by (simp only: arrow_float_index) (simp add: dirs_def)
  moreover have "dirs ! nat (round ((6333186975989759 / 2 ^ 48) / 45 :: real) mod 8) = glyph_up"
    by (simp add: round_def dirs_def)
  moreover have "binary64 (6333186975989759 / 2 ^ 48) = 6333186975989759 / 2 ^ 48"
    using binary64_exact [of 6333186975989759 "- 48"] by (simp add: power_int_minus field_simps)
  ultimately show ?thesis by simp
qed

text \<open>
  Claim C5, amended. The glyph of an \<^verbatim>\<open>int\<close> direction \<open>i\<close> is entry \<open>round (i / 45) mod 8\<close> of
  the eight glyphs listed clockwise from north (up, up-right, right, down-right, down,
  down-left, left, up-left), where \<open>round\<close> rounds a half upwards. The glyph of a finite
  float \<open>x\<close> is entry \<open>round (x / 45) mod 8\<close> unless \<open>x / 45\<close> lies within \<open>2 ^ - 48\<close> below a
  half integer, that is unless \<open>x\<close> is less than 1.6e-13 degrees below a half-way point;
  there it is that entry or the next one clockwise. So 0 and 360 give up, 45 gives
  up-right, and negative directions follow the modulo rule: -1 gives up, -45 gives
  up-left, -90 gives left. A string, \<^verbatim>\<open>None\<close>, a list, a tuple, a date, a timestamp,
  \<^verbatim>\<open>NaT\<close>, NaN and the infinities give the empty string; nothing is raised.
\<close>

theorem arrow_from_direction_buckets:
  "(x / 45 - of_int (round (x / 45)) \<le> 1 / 2 - 1 / 2 ^ 48 \<longrightarrow>
      arrow_from_direction (PyFloat (Fin x)) = dirs ! nat (round (x / 45) mod 8)) \<and>
   (arrow_from_direction (PyFloat (Fin x)) = dirs ! nat (round (x / 45) mod 8) \<or>
    arrow_from_direction (PyFloat (Fin x)) = dirs ! nat ((round (x / 45) + 1) mod 8)) \<and>
   arrow_from_direction (PyInt i) = dirs ! nat (round (real_of_int i / 45) mod 8) \<and>
   dirs = [glyph_up, glyph_up_right, glyph_right, glyph_down_right,
           glyph_down, glyph_down_left, glyph_left, glyph_up_left] \<and>
   arrow_from_direction (PyFloat (Fin 0)) = glyph_up \<and>
   arrow_from_direction (PyFloat (Fin 45)) = glyph_up_right \<and>
   arrow_from_direction (PyFloat (Fin 360)) = glyph_up \<and>
   arrow_from_direction (PyFloat (Fin (- 1))) = glyph_up \<and>
   arrow_from_direction (PyFloat (Fin (- 45))) = glyph_up_left \<and>
   arrow_from_direction (PyFloat (Fin (- 90))) = glyph_left \<and>
   arrow_from_direction (PyStr s) = [] \<and>
   arrow_from_direction PyNone = [] \<and>
   arrow_from_direction (PyList vs) = [] \<and>
   arrow_from_direction (PyTuple vs) = [] \<and>
   arrow_from_direction (PyDate d) = [] \<and>
   arrow_from_direction (PyTimestamp t) = [] \<and>
   arrow_from_direction PyNaT = [] \<and>
   arrow_from_direction (PyFloat NaN) = [] \<and>
   arrow_from_direction (PyFloat PInf) = [] \<and>
   arrow_from_direction (PyFloat NInf) = []"
proof -
  have "arrow_from_direction (PyFloat (Fin 0)) = glyph_up"
    using arrow_float [of 0] by (simp add: dirs_def)
  moreover have "arrow_from_direction (PyFloat (Fin 45)) = glyph_up_right"
    using arrow_float [of 45] by (simp add: dirs_def round_def)
  moreover have "arrow_from_direction (PyFloat (Fin 360)) = glyph_up"
    using arrow_float [of 360] by (simp add: dirs_def round_def)
  moreover have "arrow_from_direction (PyFloat (Fin (- 1))) = glyph_up"
    using arrow_float [of "- 1"] by (simp add: dirs_def round_def)
  moreover have "arrow_from_direction (PyFloat (Fin (- 45))) = glyph_up_left"
    using arrow_float [of "- 45"] by (simp add: dirs_def round_def)
  moreover have "arrow_from_direction (PyFloat (Fin (- 90))) = glyph_left"
    using arrow_float [of "- 90"] by (simp add: dirs_def round_def)
  moreover have "x / 45 - of_int (round (x / 45)) \<le> 1 / 2 - 1 / 2 ^ 48 \<longrightarrow>
      arrow_from_direction (PyFloat (Fin x)) = dirs ! nat (round (x / 45) mod 8)"
    using arrow_float [of x] by blast
  moreover have "dirs = [glyph_up, glyph_up_right, glyph_right, glyph_down_right,
           glyph_down, glyph_down_left, glyph_left, glyph_up_left]"
    by (simp add: dirs_def)
  moreover note arrow_float_next [of x] arrow_int [of i]
  ultimately show ?thesis
    by (simp only: arrow_not_finite arrow_non_numeric [of _ TypeError] num.simps simp_thms)
qed

theorem arrow_from_direction_buckets_witness:
  "(67.25 :: real) / 45 - of_int (round (67.25 / 45 :: real)) \<le> 1 / 2 - 1 / 2 ^ 48 \<and>
   arrow_from_direction (PyFloat (Fin 67.25)) = glyph_up_right \<and>
   (- 100.5 :: real) / 45 - of_int (round (- 100.5 / 45 :: real)) \<le> 1 / 2 - 1 / 2 ^ 48 \<and>
   arrow_from_direction (PyFloat (Fin (- 100.5))) = glyph_left"
proof -
  have h1: "(67.25 :: real) / 45 - of_int (round (67.25 / 45 :: real)) \<le> 1 / 2 - 1 / 2 ^ 48"
    by (simp add: round_def)
  have h2: "(- 100.5 :: real) / 45 - of_int (round (- 100.5 / 45 :: real)) \<le> 1 / 2 - 1 / 2 ^ 48"
    by (simp add: round_def)
  from arrow_from_direction_buckets [of "67.25", THEN conjunct1, THEN mp, OF h1]
  have w1: "arrow_from_direction (PyFloat (Fin 67.25)) = glyph_up_right"
    by (simp add: round_def dirs_def)
  from arrow_from_direction_buckets [of "- 100.5", THEN conjunct1, THEN mp, OF h2]
  have w2: "arrow_from_direction (PyFloat (Fin (- 100.5))) = glyph_left"
    by (simp add: round_def dirs_def)
  show ?thesis
    by (intro conjI h1 w1 h2 w2)
qed

lemma half_bucket:
  "round ((22.5 + 45 * real_of_int k) / 45) = k + 1"
proof -
  have "(22.5 + 45 * real_of_int k) / 45 + 1 / 2 = of_int (k + 1)"
    by (simp add: add_divide_distrib)
  then show ?thesis unfolding round_def by (simp only: floor_of_int)
qed

lemma arrow_half:
  "arrow_from_direction (PyFloat (Fin (22.5 + 45 * real_of_int k))) = dirs ! nat ((k + 1) mod 8)"
proof -
  have "(22.5 + 45 * real_of_int k) / 45 - of_int (k + 1) \<le> 1 / 2 - 1 / 2 ^ 48"
    by (simp add: add_divide_distrib)
  then have "(22.5 + 45 * real_of_int k) / 45 -
      of_int (round ((22.5 + 45 * real_of_int k) / 45)) \<le> 1 / 2 - 1 / 2 ^ 48"
    by (simp only: half_bucket)
  then show ?thesis
    using arrow_float [of "22.5 + 45 * real_of_int k"] by (simp only: half_bucket)
qed

text \<open>
  The remainder of a small negative direction is 360.0 itself, which the later steps send
  to entry \<open>8 mod 8\<close>, up.
\<close>

lemma fmod_reaches_360: "fmod (Fin (- 1 / 2 ^ 60)) 360 = Fin 360"
proof -
  have "\<lfloor>(- 1 / 2 ^ 60 :: real) / 360\<rfloor> = - 1"
    by (intro floor_unique) simp_all
  then have "reduced (- 1 / 2 ^ 60) = binary64 (360 - 1 / 2 ^ 60)"
    by (simp add: reduced_def)
  moreover have "binary64 (360 - 1 / 2 ^ 60) = 360"
    by (subst binary64_in_binade [where e = 8])
      (simp_all add: half_even_def power_int_minus field_simps)
  ultimately show ?thesis
    by (simp only: fmod_360)
qed

text \<open>
  Claim C10. A direction halfway between two sectors, 22.5 + 45 k degrees, gets the
  clockwise-later glyph, entry \<open>(k + 1) mod 8\<close>: 22.5 gives up-right and 337.5 gives up.
  The reduction modulo 360 lands in the closed interval from 0 to 360 (for a direction
  that is not negative it is exact and lands below 360; a small negative direction
  gives 360.0), and every finite float and every \<^verbatim>\<open>int\<close> yields one of the eight glyphs,
  never the empty string.
\<close>

theorem arrow_from_direction_half_up:
  "arrow_from_direction (PyFloat (Fin (22.5 + 45 * real_of_int k))) = dirs ! nat ((k + 1) mod 8) \<and>
   arrow_from_direction (PyFloat (Fin 22.5)) = glyph_up_right \<and>
   arrow_from_direction (PyFloat (Fin 337.5)) = glyph_up \<and>
   (\<exists>r. fmod (Fin x) 360 = Fin r \<and> 0 \<le> r \<and> r \<le> 360) \<and>
   fmod (Fin \<bar>x\<bar>) 360 = Fin (\<bar>x\<bar> - 360 * of_int \<lfloor>\<bar>x\<bar> / 360\<rfloor>) \<and>
   0 \<le> \<bar>x\<bar> - 360 * of_int \<lfloor>\<bar>x\<bar> / 360\<rfloor> \<and> \<bar>x\<bar> - 360 * of_int \<lfloor>\<bar>x\<bar> / 360\<rfloor> < 360 \<and>
   fmod (Fin (- 1 / 2 ^ 60)) 360 = Fin 360 \<and>
   arrow_from_direction (PyFloat (Fin x)) \<in> set dirs \<and>
   arrow_from_direction (PyInt i) \<in> set dirs \<and>
   [] \<notin> set dirs"
proof -
  have a: "arrow_from_direction (PyFloat (Fin (22.5 + 45 * real_of_int k))) = dirs ! nat ((k + 1) mod 8)"
    by (rule arrow_half)
  have b: "arrow_from_direction (PyFloat (Fin 22.5)) = glyph_up_right"
    using arrow_half [where k = 0] by (simp add: dirs_def)
  have "(337.5 :: real) = 22.5 + 45 * real_of_int 7" by simp
  then have c: "arrow_from_direction (PyFloat (Fin 337.5)) = glyph_up"
    using arrow_half [where k = 7] by (simp add: dirs_def)
  have d: "arrow_from_direction (PyFloat (Fin x)) \<in> set dirs"
    using glyph_index_range [OF reduced_range, of x]
    by (simp only: arrow_float_index) (rule nth_dirs_mem; simp)
  have "0 \<le> real_of_int (i mod 360)" "real_of_int (i mod 360) \<le> 360"
    by simp_all
  then have e: "arrow_from_direction (PyInt i) \<in> set dirs"
    by (simp only: arrow_int_index) (rule nth_dirs_mem; simp)
  have f: "[] \<notin> set dirs" by (simp add: dirs_def)
  have g: "\<exists>r. fmod (Fin x) 360 = Fin r \<and> 0 \<le> r \<and> r \<le> 360"
    using reduced_range [of x] by (simp only: fmod_360) blast
  have h: "fmod (Fin \<bar>x\<bar>) 360 = Fin (\<bar>x\<bar> - 360 * of_int \<lfloor>\<bar>x\<bar> / 360\<rfloor>)"
    by (simp only: fmod_360) (simp add: reduced_def)
  show ?thesis
    using a b c d e f g h fmod_range [of "\<bar>x\<bar>"] fmod_reaches_360 by blast
qed

subsection \<open>The two wind conventions\<close>

lemma wind_offset_finite:
  "wind_offset (PyFloat (Fin speed)) (PyFloat (Fin bearing)) sc =
     Inr (Fin (speed * sc * sin (bearing * pi / 180)), Fin (speed * sc * cos (bearing * pi / 180)))"
  by (simp add: wind_offset_def theta_of_def displacement_def math_radians_def)

lemma quiver_uv_finite:
  "quiver_uv (PyFloat (Fin speed)) (PyFloat (Fin bearing)) =
     Inr (Fin (speed * cos (bearing * pi / 180)), Fin (speed * sin (bearing * pi / 180)))"
  by (simp add: quiver_uv_def)

text \<open>
  Outside the finite bearings the two scripts part in another way: at an infinite bearing
  \<^verbatim>\<open>math.sin\<close> raises in \<^verbatim>\<open>app_wind.py\<close>, where numpy yields NaN in
  \<^verbatim>\<open>app_wind_static.py\<close>. At a NaN bearing both yield NaN.
\<close>

lemma infinite_bearing:
  "wind_offset (PyFloat (Fin speed)) (PyFloat PInf) sc = Inl ValueError"
  "quiver_uv (PyFloat (Fin speed)) (PyFloat PInf) = Inr (NaN, NaN)"
  "wind_offset (PyFloat (Fin speed)) (PyFloat NaN) sc = Inr (NaN, NaN)"
  "quiver_uv (PyFloat (Fin speed)) (PyFloat NaN) = Inr (NaN, NaN)"
  by (simp_all add: wind_offset_def theta_of_def displacement_def math_radians_def quiver_uv_def)

text \<open>
  Claim C4. For finite speed, bearing and scale the map offset is
  (speed * scale * sin(bearing in radians), speed * scale * cos(bearing in radians)), and
  the end point of the line adds it to (lon, lat) with scale 0.0005. Speed 10 at bearing 0
  with scale 1 is (0, 10), due north; at bearing 90 it is (10, 0), due east. Over the reals
  these equalities are exact.
\<close>

theorem wind_offset_formula:
  "wind_offset (PyFloat (Fin speed)) (PyFloat (Fin bearing)) sc =
     Inr (Fin (speed * sc * sin (bearing * pi / 180)), Fin (speed * sc * cos (bearing * pi / 180))) \<and>
   wind_end (PyFloat (Fin lon)) (PyFloat (Fin lat)) (PyFloat (Fin speed)) (PyFloat (Fin bearing)) =
     Inr (PyFloat (Fin (lon + speed * 0.0005 * sin (bearing * pi / 180))),
          PyFloat (Fin (lat + speed * 0.0005 * cos (bearing * pi / 180)))) \<and>
   wind_offset (PyFloat (Fin 10)) (PyFloat (Fin 0)) 1 = Inr (Fin 0, Fin 10) \<and>
   wind_offset (PyFloat (Fin 10)) (PyFloat (Fin 90)) 1 = Inr (Fin 10, Fin 0)"
  by (simp add: wind_offset_finite wind_end_def end_point_def theta_of_def displacement_def
      math_radians_def scale_def)

text \<open>
  Claim C7. For finite speed and bearing the quiver components of the static variant are
  (speed * cos, speed * sin) of the bearing in radians, which is the map offset at scale 1
  with its components swapped. At bearing 0 the map offset is (0, speed) and the quiver
  arrow is (speed, 0), so the two conventions disagree at speed 10 and are different
  functions.
\<close>

theorem quiver_uv_swaps_wind_offset:
  "quiver_uv (PyFloat (Fin speed)) (PyFloat (Fin bearing)) =
     Inr (Fin (speed * cos (bearing * pi / 180)), Fin (speed * sin (bearing * pi / 180))) \<and>
   quiver_uv (PyFloat (Fin speed)) (PyFloat (Fin bearing)) =
     map_sum id prod.swap (wind_offset (PyFloat (Fin speed)) (PyFloat (Fin bearing)) 1) \<and>
   wind_offset (PyFloat (Fin speed)) (PyFloat (Fin 0)) 1 = Inr (Fin 0, Fin speed) \<and>
   quiver_uv (PyFloat (Fin speed)) (PyFloat (Fin 0)) = Inr (Fin speed, Fin 0) \<and>
   quiver_uv (PyFloat (Fin 10)) (PyFloat (Fin 0)) \<noteq> wind_offset (PyFloat (Fin 10)) (PyFloat (Fin 0)) 1 \<and>
   quiver_uv \<noteq> (\<lambda>speed bearing. wind_offset speed bearing 1)"
proof -
  have ne: "quiver_uv (PyFloat (Fin 10)) (PyFloat (Fin 0)) \<noteq> wind_offset (PyFloat (Fin 10)) (PyFloat (Fin 0)) 1"
    by (simp add: wind_offset_finite quiver_uv_finite)
  then have "quiver_uv \<noteq> (\<lambda>speed bearing. wind_offset speed bearing 1)"
    by metis
  with ne show ?thesis
    by (simp add: wind_offset_finite quiver_uv_finite)
qed

subsection \<open>Running a program step by step\<close>

lemma then_do_assoc: "then_do (then_do m k) k' = then_do m (\<lambda>x. then_do (k x) k')"
  by (auto simp: then_do_def fun_eq_iff split: prod.splits sum.splits)

lemma then_do_returns: "then_do (returns x) k = k x"
  by (simp add: then_do_def returns_def fun_eq_iff)

lemma then_do_lift_Inr: "then_do (lift (Inr x)) k = k x"
  by (simp add: then_do_def lift_def fun_eq_iff)

lemma then_do_lift_Inl: "then_do (lift (Inl e)) k w = (Inl e, w)"
  by (simp add: then_do_def lift_def)

lemma then_do_frame_at:
  "a < length (heap w) \<Longrightarrow> then_do (frame_at a) k w = k (heap w ! a) w"
  by (simp add: then_do_def frame_at_def)

lemma then_do_new_frame:
  "then_do (new_frame f) k w = k (length (heap w)) (w\<lparr>heap := heap w @ [f]\<rparr>)"
  by (simp add: then_do_def new_frame_def)

lemma then_do_store_frame:
  "a < length (heap w) \<Longrightarrow>
   then_do (store_frame a f) k w = k () (w\<lparr>heap := (heap w)[a := f]\<rparr>)"
  by (simp add: then_do_def store_frame_def)

lemma then_do_st: "then_do (st x) k w = k () (w\<lparr>screen := screen w @ [x]\<rparr>)"
  by (simp add: then_do_def st_def)

lemmas run_steps =
  then_do_assoc then_do_returns then_do_lift_Inr then_do_lift_Inl then_do_frame_at
  then_do_new_frame then_do_store_frame then_do_st


lemma getitem_mask_result:
  "df < length (heap w) \<Longrightarrow>
   getitem_mask df keep w =
     (Inr (length (heap w)), w\<lparr>heap := heap w @ [frame_mask (heap w ! df) keep]\<rparr>)"
  by (simp add: getitem_mask_def then_do_def frame_at_def new_frame_def)

lemma filter_by_date_result:
  assumes "filter_by_date df d w = (Inr a, w1)"
  shows "\<exists>keep. a = length (heap w) \<and> w1 = w\<lparr>heap := heap w @ [frame_mask (heap w ! df) keep]\<rparr>"
  using assms
  by (auto simp: filter_by_date_def getitem_col_def then_do_def frame_at_def lift_def
      getitem_mask_result split: sum.splits if_splits)

lemma filter_by_timestamp_result:
  assumes "filter_by_timestamp df d w = (Inr a, w1)"
  shows "\<exists>keep. a = length (heap w) \<and> w1 = w\<lparr>heap := heap w @ [frame_mask (heap w ! df) keep]\<rparr>"
  using assms
  by (auto simp: filter_by_timestamp_def getitem_col_def then_do_def frame_at_def lift_def
      getitem_mask_result split: sum.splits if_splits)

lemma filter_in_result:
  assumes "filter_in v df d w = (Inr a, w1)"
  shows "\<exists>keep. a = length (heap w) \<and> w1 = w\<lparr>heap := heap w @ [frame_mask (heap w ! df) keep]\<rparr>"
  using assms by (cases v) (auto dest: filter_by_date_result filter_by_timestamp_result)


subsection \<open>The rows a filter keeps\<close>

lemma select_rows_simps [simp]:
  "select_rows [] xs = []"
  "select_rows ks [] = []"
  "select_rows (k # ks) (x # xs) = (if k then x # select_rows ks xs else select_rows ks xs)"
  by (simp_all add: select_rows_def)

lemma select_rows_map: "select_rows (map P xs) xs = filter P xs"
  by (induction xs) simp_all

lemma rows_of_Cons: "rows_of (i # ix) cs = (i, heads cs) # rows_of ix (tails cs)"
  by (simp add: heads_def tails_def)

lemma tall_Cons: "tall n ((c, vs) # cs) = (length vs = n \<and> tall n cs)"
  by (simp add: tall_def)

lemma tall_Nil: "tall n []"
  by (simp add: tall_def)

lemma select_rows_True:
  "vs \<noteq> [] \<Longrightarrow> hd (select_rows (True # ks) vs) = hd vs"
  "vs \<noteq> [] \<Longrightarrow> tl (select_rows (True # ks) vs) = select_rows ks (tl vs)"
  by (cases vs; simp)+

lemma select_rows_False: "select_rows (False # ks) vs = select_rows ks (tl vs)"
  by (cases vs) simp_all

lemma tall_tails: "tall (Suc n) cs \<Longrightarrow> tall n (tails cs)"
proof (induction cs)
  case Nil
  then show ?case by (simp add: tails_def tall_Nil)
next
  case (Cons p cs)
  obtain c vs where p: "p = (c, vs)" by (cases p)
  with Cons.prems have "length vs = Suc n" "tall (Suc n) cs" by (simp_all add: tall_Cons)
  with Cons.IH have "length (tl vs) = n" "tall n (tails cs)" by simp_all
  then show ?case by (simp add: p tails_def tall_Cons)
qed

lemma picked_True:
  "tall (Suc n) cs \<Longrightarrow> heads (picked (True # ks) cs) = heads cs"
proof (induction cs)
  case Nil
  then show ?case by (simp add: heads_def picked_def)
next
  case (Cons p cs)
  obtain c vs where p: "p = (c, vs)" by (cases p)
  with Cons.prems have "vs \<noteq> []" "tall (Suc n) cs" by (auto simp: tall_Cons)
  with Cons.IH have "hd (select_rows (True # ks) vs) = hd vs" "heads (picked (True # ks) cs) = heads cs"
    by (simp_all add: select_rows_True)
  then show ?case by (simp add: p heads_def picked_def)
qed

lemma picked_True_tails:
  "tall (Suc n) cs \<Longrightarrow> tails (picked (True # ks) cs) = picked ks (tails cs)"
proof (induction cs)
  case Nil
  then show ?case by (simp add: tails_def picked_def)
next
  case (Cons p cs)
  obtain c vs where p: "p = (c, vs)" by (cases p)
  with Cons.prems have "vs \<noteq> []" "tall (Suc n) cs" by (auto simp: tall_Cons)
  with Cons.IH have "tl (select_rows (True # ks) vs) = select_rows ks (tl vs)"
    "tails (picked (True # ks) cs) = picked ks (tails cs)"
    by (simp_all add: select_rows_True)
  then show ?case by (simp add: p tails_def picked_def)
qed

lemma picked_False:
  "picked (False # ks) cs = picked ks (tails cs)"
proof (induction cs)
  case Nil
  then show ?case by (simp add: tails_def picked_def)
next
  case (Cons p cs)
  obtain c vs where p: "p = (c, vs)" by (cases p)
  from Cons.IH show ?case
    by (simp add: p tails_def picked_def select_rows_False)
qed

lemma rows_of_picked:
  "length keep = length ix \<Longrightarrow> tall (length ix) cs \<Longrightarrow>
   rows_of (select_rows keep ix) (picked keep cs) = select_rows keep (rows_of ix cs)"
proof (induction keep ix arbitrary: cs rule: list_induct2)
  case Nil
  then show ?case by simp
next
  case (Cons k ks i ix)
  from Cons.prems have t: "tall (Suc (length ix)) cs" by simp
  then have t': "tall (length ix) (tails cs)" by (rule tall_tails)
  show ?case
  proof (cases k)
    case True
    then show ?thesis
      using Cons.IH [OF t'] picked_True [OF t, of ks] picked_True_tails [OF t, of ks]
      by (simp only: select_rows_simps rows_of_Cons if_True)
  next
    case False
    then show ?thesis
      using Cons.IH [OF t'] picked_False [of ks cs]
      by (simp only: select_rows_simps rows_of_Cons if_False)
  qed
qed

lemma map_of_heads: "map_of (heads cs) c = map_option hd (map_of cs c)"
  unfolding heads_def by (induction cs) auto

lemma map_of_tails: "map_of (tails cs) c = map_option tl (map_of cs c)"
  unfolding tails_def by (induction cs) auto

lemma date_cells:
  "map_of cs ''date'' = Some dates \<Longrightarrow> length dates = length ix \<Longrightarrow>
   map (\<lambda>row. map_of (snd row) ''date'') (rows_of ix cs) = map Some dates"
proof (induction ix arbitrary: cs dates)
  case Nil
  then show ?case by simp
next
  case (Cons i ix)
  then obtain v vs where d: "dates = v # vs" by (cases dates) auto
  with Cons.prems have "map_of (tails cs) ''date'' = Some vs" "length vs = length ix"
    by (simp_all add: map_of_tails)
  from Cons.IH [OF this] Cons.prems(1) show ?case
    by (simp only: rows_of_Cons) (simp add: map_of_heads d)
qed

lemma dt_date_days:
  "series_apply dt_date dates = Inr days \<Longrightarrow>
   map (\<lambda>v. eq_date v d) days =
   map (\<lambda>v. case v of PyTimestamp t \<Rightarrow> on_date t = d | _ \<Rightarrow> False) dates"
proof (induction dates arbitrary: days)
  case Nil
  then show ?case by simp
next
  case (Cons v vs)
  then obtain y ys where y: "dt_date v = Inr y" "series_apply dt_date vs = Inr ys" "days = y # ys"
    by (cases "dt_date v"; cases "series_apply dt_date vs") auto
  from y(1) have "eq_date y d = (case v of PyTimestamp t \<Rightarrow> on_date t = d | _ \<Rightarrow> False)"
    by (cases v) auto
  with Cons.IH [OF y(2)] y(3) show ?case by simp
qed

lemma on_day_cell:
  "on_day d row = (case map_of (snd row) ''date'' of Some (PyTimestamp t) \<Rightarrow> on_date t = d | _ \<Rightarrow> False)"
  by (cases row) simp

lemma on_day_rows:
  assumes "map_of cs ''date'' = Some dates" and "length dates = length ix"
  shows "map (on_day d) (rows_of ix cs) =
         map (\<lambda>v. case v of PyTimestamp t \<Rightarrow> on_date t = d | _ \<Rightarrow> False) dates"
proof -
  have "map (on_day d) (rows_of ix cs) =
        map (\<lambda>c. case c of Some (PyTimestamp t) \<Rightarrow> on_date t = d | _ \<Rightarrow> False)
          (map (\<lambda>row. map_of (snd row) ''date'') (rows_of ix cs))"
    by (simp add: on_day_cell comp_def)
  also have "\<dots> = map (\<lambda>v. case v of PyTimestamp t \<Rightarrow> on_date t = d | _ \<Rightarrow> False) dates"
    by (simp only: date_cells [OF assms]) (simp add: comp_def)
  finally show ?thesis .
qed

lemma rectangular_date:
  assumes "rectangular f" and "map_of (cols f) ''date'' = Some dates"
  shows "length dates = length (index f)"
proof -
  from assms(2) have "(''date'', dates) \<in> set (cols f)" by (rule map_of_SomeD)
  with assms(1) show ?thesis by (auto simp: rectangular_def list_all_iff)
qed

lemma series_apply_Cons:
  assumes "series_apply g (x # xs) = Inr ys"
  obtains y ys' where "g x = Inr y" "series_apply g xs = Inr ys'" "ys = y # ys'"
proof (cases "g x")
  case (Inl e)
  with assms show ?thesis by simp
next
  case gx: (Inr y)
  show ?thesis
  proof (cases "series_apply g xs")
    case (Inl e)
    with assms gx show ?thesis by simp
  next
    case (Inr ys')
    with assms gx have "ys = y # ys'" by simp
    with gx Inr show ?thesis by (rule that)
  qed
qed

lemma series_apply_length: "series_apply g xs = Inr ys \<Longrightarrow> length ys = length xs"
proof (induction xs arbitrary: ys)
  case Nil
  then show ?case by simp
next
  case (Cons x xs)
  from Cons.prems obtain y ys' where "series_apply g xs = Inr ys'" "ys = y # ys'"
    by (rule series_apply_Cons)
  with Cons.IH show ?case by simp
qed

lemma rows_frame_mask:
  assumes "rectangular f" and "length keep = length (index f)"
  shows "rows (frame_mask f keep) = select_rows keep (rows f)"
  using rows_of_picked [of keep "index f" "cols f"] assms
  by (simp add: rows_def frame_mask_def picked_def tall_def rectangular_def)

text \<open>
  The filter of the five pydeck variants keeps exactly the rows stamped on the selected
  day, whatever their time of day, in their order and with their index labels.
\<close>

theorem filter_by_date_rows:
  assumes r: "rectangular (heap w ! df)"
    and f: "filter_by_date df selected_date w = (Inr filtered, w1)"
  shows "rows (heap w1 ! filtered) = filter (on_day selected_date) (rows (heap w ! df))"
proof -
  let ?f = "heap w ! df"
  from f obtain dates days where
    dates: "map_of (cols ?f) ''date'' = Some dates"
    and days: "series_apply dt_date dates = Inr days"
    and res: "filtered = length (heap w)"
      "w1 = w\<lparr>heap := heap w @ [frame_mask ?f (map (\<lambda>v. eq_date v selected_date) days)]\<rparr>"
    by (auto simp: filter_by_date_def getitem_col_def getitem_mask_def then_do_def frame_at_def
        lift_def new_frame_def column_def split: sum.splits option.splits if_splits)
  have len: "length dates = length (index ?f)"
    using r dates by (rule rectangular_date)
  have keep: "map (\<lambda>v. eq_date v selected_date) days = map (on_day selected_date) (rows ?f)"
    unfolding rows_def on_day_rows [OF dates len] by (rule dt_date_days [OF days])
  have "heap w1 ! filtered = frame_mask ?f (map (on_day selected_date) (rows ?f))"
    by (simp add: res keep)
  moreover have "length (map (on_day selected_date) (rows ?f)) = length (index ?f)"
    using keep series_apply_length [OF days] len by (metis length_map)
  ultimately show ?thesis
    using rows_frame_mask [OF r] by (simp add: select_rows_map)
qed

lemma eq_timestamp_midnight:
  "eq_timestamp v (to_datetime d) =
     (case v of PyTimestamp t \<Rightarrow> on_date t = d \<and> nanos t = 0 | _ \<Rightarrow> False)"
proof (cases v)
  case (PyTimestamp t)
  then show ?thesis by (cases t) (auto simp: to_datetime_def)
qed simp_all

lemma at_midnight_cell:
  "at_midnight d row =
     (case map_of (snd row) ''date'' of
        Some (PyTimestamp t) \<Rightarrow> on_date t = d \<and> nanos t = 0 | _ \<Rightarrow> False)"
  by (cases row) simp

lemma at_midnight_rows:
  assumes "map_of cs ''date'' = Some dates" and "length dates = length ix"
  shows "map (at_midnight d) (rows_of ix cs) =
         map (\<lambda>v. eq_timestamp v (to_datetime d)) dates"
proof -
  have "map (at_midnight d) (rows_of ix cs) =
        map (\<lambda>c. case c of Some (PyTimestamp t) \<Rightarrow> on_date t = d \<and> nanos t = 0 | _ \<Rightarrow> False)
          (map (\<lambda>row. map_of (snd row) ''date'') (rows_of ix cs))"
    by (simp add: at_midnight_cell comp_def)
  also have "\<dots> = map (\<lambda>v. eq_timestamp v (to_datetime d)) dates"
    by (simp only: date_cells [OF assms]) (simp add: comp_def eq_timestamp_midnight)
  finally show ?thesis .
qed

text \<open>
  The filter of the static variant keeps exactly the rows stamped at midnight of the
  selected day.
\<close>

theorem filter_by_timestamp_rows:
  assumes r: "rectangular (heap w ! df)"
    and f: "filter_by_timestamp df selected_date w = (Inr filtered, w1)"
  shows "rows (heap w1 ! filtered) = filter (at_midnight selected_date) (rows (heap w ! df))"
proof -
  let ?f = "heap w ! df"
  from f obtain dates where
    dates: "map_of (cols ?f) ''date'' = Some dates"
    and res: "filtered = length (heap w)"
      "w1 = w\<lparr>heap := heap w @
         [frame_mask ?f (map (\<lambda>v. eq_timestamp v (to_datetime selected_date)) dates)]\<rparr>"
    by (auto simp: filter_by_timestamp_def getitem_col_def getitem_mask_def then_do_def
        frame_at_def lift_def new_frame_def column_def split: sum.splits option.splits if_splits)
  have len: "length dates = length (index ?f)"
    using r dates by (rule rectangular_date)
  have keep: "map (\<lambda>v. eq_timestamp v (to_datetime selected_date)) dates =
      map (at_midnight selected_date) (rows ?f)"
    unfolding rows_def by (rule at_midnight_rows [OF dates len, symmetric])
  have "heap w1 ! filtered = frame_mask ?f (map (at_midnight selected_date) (rows ?f))"
    by (simp add: res keep)
  moreover have "length (map (at_midnight selected_date) (rows ?f)) = length (index ?f)"
    using keep len by (metis length_map)
  ultimately show ?thesis
    using rows_frame_mask [OF r] by (simp add: select_rows_map)
qed

subsection \<open>The sample dataset\<close>

lemma july_eq [simp]: "(july m = july n) = (m = n)"
  by (simp add: july_def)

lemma sample_date: "column sample_df ''date'' =
  Inr [PyTimestamp \<lparr>on_date = july 1, nanos = 0\<rparr>, PyTimestamp \<lparr>on_date = july 3, nanos = noon\<rparr>]"
  by (simp add: column_def sample_df_def)

lemma sample_index: "index sample_df = [0, 1]"
  by (simp add: sample_df_def)

lemma sample_names: "map fst (cols sample_df) =
  [''lat'', ''lon'', ''date'', ''NDVI'', ''NDWI'', ''EVI'', ''Temperature'', ''Rainfall'',
   ''WindSpeed'', ''WindDirection'']"
  by (simp add: sample_df_def)

lemma sample_filter_july_2: "filter_by_date 0 (july 2) sample_world =
   (Inr 1, \<lparr>heap = [sample_df, frame_mask sample_df [False, False]], screen = []\<rparr>)"
  by (simp add: filter_by_date_def getitem_col_def getitem_mask_def run_steps sample_world_def
      sample_date new_frame_def)

lemma sample_filter_july_3: "filter_by_date 0 (july 3) sample_world =
   (Inr 1, \<lparr>heap = [sample_df, frame_mask sample_df [False, True]], screen = []\<rparr>)"
  by (simp add: filter_by_date_def getitem_col_def getitem_mask_def run_steps sample_world_def
      sample_date new_frame_def)

lemma sample_static_filter_july_3: "filter_by_timestamp 0 (july 3) sample_world =
   (Inr 1, \<lparr>heap = [sample_df, frame_mask sample_df [False, False]], screen = []\<rparr>)"
  by (simp add: filter_by_timestamp_def getitem_col_def getitem_mask_def run_steps sample_world_def
      sample_date new_frame_def to_datetime_def noon_def)

lemma rows_kept: "rows (frame_mask sample_df [False, True]) = [(1, row1)]"
  by (simp add: rows_def frame_mask_def sample_df_def row1_def)

lemma rows_none: "rows (frame_mask sample_df [False, False]) = []"
  by (simp add: rows_def frame_mask_def sample_df_def)

lemma static_run: "run_pass App_wind_static 0 (july 3) sample_world =
   (Inr (), \<lparr>heap = [sample_df, frame_mask sample_df [False, False]],
      screen = [Write ''No data available for selected date.'']\<rparr>)"
proof -
  have "is_empty (frame_mask sample_df [False, False])"
    by (simp add: is_empty_def frame_mask_def sample_index)
  then show ?thesis
    by (simp add: app_wind_static_pass_def then_do_def sample_static_filter_july_3 df_empty_def frame_at_def returns_def
        st_def)
qed

lemma sample_rectangular: "rectangular sample_df"
  by (simp add: rectangular_def sample_df_def)

lemma sample_heap: "heap sample_world ! 0 = sample_df"
  by (simp add: sample_world_def)

lemma rows_sample: "rows sample_df = [(0, row0), (1, row1)]"
  by (simp add: rows_def sample_df_def row0_def row1_def)

lemma sample_on_day: "filter (on_day (july 3)) (rows sample_df) = [(1, row1)]"
proof -
  have "\<not> on_day (july 3) (0, row0)" "on_day (july 3) (1, row1)"
    by (simp_all add: row0_def row1_def)
  then show ?thesis by (simp only: rows_sample filter.simps if_True if_False)
qed

lemma sample_at_midnight: "filter (at_midnight (july 3)) (rows sample_df) = []"
proof -
  have "\<not> at_midnight (july 3) (0, row0)" "\<not> at_midnight (july 3) (1, row1)"
    by (simp_all add: row0_def row1_def noon_def)
  then show ?thesis by (simp only: rows_sample filter.simps if_True if_False)
qed

theorem filter_by_date_rows_witness:
  "rectangular (heap sample_world ! 0) \<and>
   filter_by_date 0 (july 3) sample_world =
     (Inr 1, \<lparr>heap = [sample_df, frame_mask sample_df [False, True]], screen = []\<rparr>) \<and>
   rows (frame_mask sample_df [False, True]) = [(1, row1)] \<and>
   filter (on_day (july 3)) (rows sample_df) = [(1, row1)]"
  using filter_by_date_rows [of sample_world 0 "july 3", OF _ sample_filter_july_3]
  by (simp add: sample_heap sample_rectangular sample_filter_july_3 sample_on_day)

theorem filter_by_timestamp_rows_witness:
  "rectangular (heap sample_world ! 0) \<and>
   filter_by_timestamp 0 (july 3) sample_world =
     (Inr 1, \<lparr>heap = [sample_df, frame_mask sample_df [False, False]], screen = []\<rparr>) \<and>
   rows (frame_mask sample_df [False, False]) = [] \<and>
   filter (at_midnight (july 3)) (rows sample_df) = []"
  using filter_by_timestamp_rows [of sample_world 0 "july 3", OF _ sample_static_filter_july_3]
  by (simp add: sample_heap sample_rectangular sample_static_filter_july_3 sample_at_midnight)

text \<open>
  Claim C2 says that in every variant the filter keeps exactly the rows whose date is the
  selected date, whatever their time of day. The sample's second row is stamped at noon
  of 3 July. With 3 July selected, the five pydeck variants keep that row; the static
  variant compares the whole timestamp with midnight of 3 July, keeps nothing, and writes
  that there is no data.
\<close>

theorem static_filter_drops_timed_row:
  "rows sample_df = [(0, row0), (1, row1)] \<and>
   map_of row1 ''date'' = Some (PyTimestamp \<lparr>on_date = july 3, nanos = noon\<rparr>) \<and>
   filter_in App 0 (july 3) sample_world =
     (Inr 1, \<lparr>heap = [sample_df, frame_mask sample_df [False, True]], screen = []\<rparr>) \<and>
   rows (frame_mask sample_df [False, True]) = [(1, row1)] \<and>
   filter_in App_wind_static 0 (july 3) sample_world =
     (Inr 1, \<lparr>heap = [sample_df, frame_mask sample_df [False, False]], screen = []\<rparr>) \<and>
   rows (frame_mask sample_df [False, False]) = [] \<and>
   run_pass App_wind_static 0 (july 3) sample_world =
     (Inr (), \<lparr>heap = [sample_df, frame_mask sample_df [False, False]],
        screen = [Write ''No data available for selected date.'']\<rparr>)"
  using static_run
  by (simp add: rows_sample rows_kept rows_none sample_filter_july_3 sample_static_filter_july_3 row1_def)

subsection \<open>The empty subset\<close>

lemma frame_mask_names: "map fst (cols (frame_mask f keep)) = map fst (cols f)"
  by (auto simp: frame_mask_def)

lemma column_present:
  assumes "c \<in> fst ` set (cols f)"
  shows "\<exists>vs. column f c = Inr vs"
proof -
  from assms have "map_of (cols f) c \<noteq> None"
    by (simp add: map_of_eq_None_iff)
  then show ?thesis by (auto simp: column_def)
qed

lemma columns_of_present:
  "set cs \<subseteq> fst ` set (cols f) \<Longrightarrow> \<exists>sel. columns_of f cs = Inr sel"
proof (induction cs)
  case Nil
  then show ?case by simp
next
  case (Cons c cs)
  then obtain vs sel where "column f c = Inr vs" "columns_of f cs = Inr sel"
    using column_present [of c f] by auto
  then show ?case by (simp add: and_then_def)
qed

lemma dataframe_present:
  assumes "set cs \<subseteq> fst ` set (cols (heap w ! a))" and a: "a < length (heap w)"
  shows "\<exists>t. dataframe a cs w = (Inr (), w\<lparr>screen := screen w @ [Dataframe t]\<rparr>)"
proof -
  from assms obtain sel where "columns_of (heap w ! a) cs = Inr sel"
    using columns_of_present by blast
  with a show ?thesis
    by (auto simp: dataframe_def getitem_cols_def then_do_def frame_at_def lift_def frame_cols_def
        and_then_def st_def)
qed

lemma df_empty_result:
  "a < length (heap w) \<Longrightarrow> df_empty a w = (Inr (is_empty (heap w ! a)), w)"
  by (simp add: df_empty_def then_do_def frame_at_def returns_def)

lemma table_then_no_data:
  assumes f: "filter_by_date df d w = (Inr a, w1)"
    and e: "is_empty (heap w1 ! a)"
    and c: "set cs \<subseteq> fst ` set (cols (heap w ! df))"
  shows "\<exists>t. then_do (filter_by_date df d) (\<lambda>filtered.
            then_do (st (Subheader (Data_for d))) (\<lambda>_.
            then_do (dataframe filtered cs) (\<lambda>_.
            then_do (df_empty filtered) (\<lambda>no_rows.
              if \<not> no_rows then rest filtered else st (Write msg))))) w =
           (Inr (), w1\<lparr>screen := screen w @ [Subheader (Data_for d), Dataframe t, Write msg]\<rparr>)"
proof -
  from f obtain keep where a: "a = length (heap w)"
    and w1: "w1 = w\<lparr>heap := heap w @ [frame_mask (heap w ! df) keep]\<rparr>"
    using filter_by_date_result by blast
  define w2 where "w2 = w1\<lparr>screen := screen w1 @ [Subheader (Data_for d)]\<rparr>"
  have s2: "st (Subheader (Data_for d)) w1 = (Inr (), w2)"
    by (simp add: st_def w2_def)
  have h2: "heap w2 ! a = frame_mask (heap w ! df) keep"
    by (simp add: w2_def w1 a)
  have "fst ` set (cols (heap w2 ! a)) = fst ` set (cols (heap w ! df))"
    unfolding h2 using frame_mask_names [of "heap w ! df" keep] by (metis set_map)
  with c have "set cs \<subseteq> fst ` set (cols (heap w2 ! a))"
    by (simp only:)
  moreover have "a < length (heap w2)"
    by (simp add: w2_def w1 a)
  ultimately
  obtain t where t: "dataframe a cs w2 = (Inr (), w2\<lparr>screen := screen w2 @ [Dataframe t]\<rparr>)"
    using dataframe_present by blast
  define w3 where "w3 = w2\<lparr>screen := screen w2 @ [Dataframe t]\<rparr>"
  have e3: "df_empty a w3 = (Inr True, w3)"
    using e by (simp add: df_empty_result w3_def w2_def w1 a)
  have 1: "then_do (filter_by_date df d) k w = k a w1" for k :: "nat \<Rightarrow> unit prog"
    using f by (simp add: then_do_def)
  have 2: "then_do (st (Subheader (Data_for d))) k w1 = k () w2" for k :: "unit \<Rightarrow> unit prog"
    using s2 by (simp add: then_do_def)
  have 3: "then_do (dataframe a cs) k w2 = k () w3" for k :: "unit \<Rightarrow> unit prog"
    using t by (simp add: then_do_def w3_def)
  have 4: "then_do (df_empty a) k w3 = k True w3" for k :: "bool \<Rightarrow> unit prog"
    using e3 by (simp add: then_do_def)
  show ?thesis
    by (intro exI [of _ t], simp only: 1 2 3 4 not_True_eq_False if_False)
      (simp add: st_def w3_def w2_def w1)
qed

lemma check_then_no_data:
  assumes f: "flt w = (Inr a, w1)"
    and e: "is_empty (heap w1 ! a)"
    and a: "a < length (heap w1)"
  shows "then_do flt (\<lambda>filtered. then_do (df_empty filtered) (\<lambda>no_rows.
            if \<not> no_rows then rest filtered else st (Write msg))) w =
           (Inr (), w1\<lparr>screen := screen w1 @ [Write msg]\<rparr>)"
  using e a by (simp add: then_do_def f df_empty_result st_def)

lemma check_then_no_data_static:
  assumes f: "flt w = (Inr a, w1)"
    and e: "is_empty (heap w1 ! a)"
    and a: "a < length (heap w1)"
  shows "then_do flt (\<lambda>filtered. then_do (df_empty filtered) (\<lambda>no_rows.
            if no_rows then st (Write msg) else rest filtered)) w =
           (Inr (), w1\<lparr>screen := screen w1 @ [Write msg]\<rparr>)"
  using e a by (simp add: then_do_def f df_empty_result st_def)

lemma filter_in_screen:
  "filter_in v df d w = (Inr a, w1) \<Longrightarrow> screen w1 = screen w \<and> a < length (heap w1)"
  by (auto dest: filter_in_result)

text \<open>
  Claim C8. Take any variant, any heap and any selected date for which the filter returns
  a frame that is empty, on a dataset that has the columns the script shows before it
  tests for emptiness. Then the pass ends without an exception; after the filter no frame
  is created or changed, so no colour is computed; no chart, plot or statistics widget is
  added; and the last widget written is the variant's "no data" message.
\<close>

theorem empty_subset_shows_no_data:
  assumes f: "filter_in v df selected_date w = (Inr filtered, w1)"
    and e: "is_empty (heap w1 ! filtered)"
    and c: "set (shown_first v) \<subseteq> fst ` set (cols (heap w ! df))"
  shows "\<exists>w'. run_pass v df selected_date w = (Inr (), w') \<and> heap w' = heap w1 \<and>
           filter is_analysis (screen w') = filter is_analysis (screen w) \<and>
           last (screen w') = Write (no_data_message v)"
proof -
  note s = filter_in_screen [OF f, THEN conjunct1]
  note a = filter_in_screen [OF f, THEN conjunct2]
  show ?thesis
  proof (cases v)
    case App
    with f c have f': "filter_by_date df selected_date w = (Inr filtered, w1)"
      and c': "set (shown_first App) \<subseteq> fst ` set (cols (heap w ! df))" by simp_all
    have "\<exists>t. app_pass df selected_date w =
         (Inr (), w1\<lparr>screen := screen w @ [Subheader (Data_for selected_date), Dataframe t,
            Write ''No data available for the selected date.'']\<rparr>)"
      unfolding app_pass_def by (rule table_then_no_data [OF f' e c' [unfolded shown_first.simps]])
    with App show ?thesis by auto
  next
    case App_weather
    with f c have f': "filter_by_date df selected_date w = (Inr filtered, w1)"
      and c': "set (shown_first App_weather) \<subseteq> fst ` set (cols (heap w ! df))" by simp_all
    have "\<exists>t. app_weather_pass df selected_date w =
         (Inr (), w1\<lparr>screen := screen w @ [Subheader (Data_for selected_date), Dataframe t,
            Write ''No data available for the selected date.'']\<rparr>)"
      unfolding app_weather_pass_def
      by (rule table_then_no_data [OF f' e c' [unfolded shown_first.simps]])
    with App_weather show ?thesis by auto
  next
    case App_wind
    with f s check_then_no_data [OF _ e a, of "filter_by_date df selected_date" w]
    show ?thesis by (simp add: app_wind_pass_def)
  next
    case App_wind_icon
    with f s check_then_no_data [OF _ e a, of "filter_by_date df selected_date" w]
    show ?thesis by (simp add: app_wind_icon_pass_def)
  next
    case App_wind_text
    with f s check_then_no_data [OF _ e a, of "filter_by_date df selected_date" w]
    show ?thesis by (simp add: app_wind_text_pass_def)
  next
    case App_wind_static
    with f s check_then_no_data_static [OF _ e a, of "filter_by_timestamp df selected_date" w]
    show ?thesis by (simp add: app_wind_static_pass_def)
  qed
qed

theorem empty_subset_shows_no_data_witness:
  "filter_in App 0 (july 2) sample_world =
     (Inr 1, \<lparr>heap = [sample_df, frame_mask sample_df [False, False]], screen = []\<rparr>) \<and>
   is_empty (frame_mask sample_df [False, False]) \<and>
   (\<exists>w'. run_pass App 0 (july 2) sample_world = (Inr (), w') \<and>
      heap w' = [sample_df, frame_mask sample_df [False, False]] \<and>
      filter is_analysis (screen w') = [] \<and>
      last (screen w') = Write ''No data available for the selected date.'')"
proof -
  have f: "filter_in App 0 (july 2) sample_world =
     (Inr 1, \<lparr>heap = [sample_df, frame_mask sample_df [False, False]], screen = []\<rparr>)"
    by (simp add: sample_filter_july_2)
  have e: "is_empty (frame_mask sample_df [False, False])"
    by (simp add: is_empty_def frame_mask_def sample_index)
  then have e': "is_empty
      (heap \<lparr>heap = [sample_df, frame_mask sample_df [False, False]], screen = []\<rparr> ! 1)"
    by simp
  have c: "set (shown_first App) \<subseteq> fst ` set (cols (heap sample_world ! 0))"
    unfolding sample_heap by (simp add: sample_names flip: set_map)
  from empty_subset_shows_no_data [OF f e' c] f e show ?thesis
    by (simp add: sample_world_def)
qed

subsection \<open>The loaded dataset is never changed\<close>

lemma keeps_returns: "Q x \<Longrightarrow> keeps n (returns x) Q"
  by (simp add: keeps_def returns_def)

lemma keeps_lift: "keeps n (lift r) (\<lambda>x. True)"
  by (simp add: keeps_def lift_def split: sum.split)

lemma keeps_frame_at: "keeps n (frame_at a) (\<lambda>x. True)"
  by (simp add: keeps_def frame_at_def)

lemma keeps_new_frame: "keeps n (new_frame f) (\<lambda>a. n \<le> a)"
  by (simp add: keeps_def new_frame_def)

lemma keeps_store_frame: "n \<le> a \<Longrightarrow> keeps n (store_frame a f) (\<lambda>x. True)"
  by (simp add: keeps_def store_frame_def)

lemma keeps_st: "keeps n (st x) (\<lambda>x. True)"
  by (simp add: keeps_def st_def)

lemma keeps_then_do:
  assumes "keeps n m Q" and "\<And>x. Q x \<Longrightarrow> keeps n (k x) R"
  shows "keeps n (then_do m k) R"
  unfolding keeps_def
proof (intro allI impI)
  fix w :: world
  assume n: "n \<le> length (heap w)"
  obtain r w1 where m: "m w = (r, w1)" by (cases "m w")
  from assms(1) n m have 1: "take n (heap w1) = take n (heap w)" "length (heap w) \<le> length (heap w1)"
    and q: "case r of Inl e \<Rightarrow> True | Inr x \<Rightarrow> Q x"
    by (auto simp: keeps_def)
  show "case then_do m k w of (r, w') \<Rightarrow>
           take n (heap w') = take n (heap w) \<and> length (heap w) \<le> length (heap w') \<and>
           (case r of Inl e \<Rightarrow> True | Inr x \<Rightarrow> R x)"
  proof (cases r)
    case (Inl e)
    with m 1 show ?thesis by (simp add: then_do_def)
  next
    case (Inr x)
    with q have "Q x" by simp
    then have "keeps n (k x) R" by (rule assms(2))
    moreover from n 1 have "n \<le> length (heap w1)" by simp
    ultimately have "case k x w1 of (r, w') \<Rightarrow>
           take n (heap w') = take n (heap w1) \<and> length (heap w1) \<le> length (heap w') \<and>
           (case r of Inl e \<Rightarrow> True | Inr x \<Rightarrow> R x)"
      by (simp add: keeps_def)
    with m Inr 1 show ?thesis by (auto simp: then_do_def)
  qed
qed

lemma keeps_if:
  "(b \<Longrightarrow> keeps n p Q) \<Longrightarrow> (\<not> b \<Longrightarrow> keeps n q Q) \<Longrightarrow> keeps n (if b then p else q) Q"
  by simp

lemmas keeps_prims =
  keeps_lift keeps_frame_at keeps_new_frame keeps_store_frame keeps_st keeps_returns

lemma keeps_getitem_col: "keeps n (getitem_col a c) (\<lambda>x. True)"
  unfolding getitem_col_def by (rule keeps_then_do keeps_prims)+

lemma keeps_getitem_cols: "keeps n (getitem_cols a cs) (\<lambda>x. True)"
  unfolding getitem_cols_def by (rule keeps_then_do keeps_prims)+

lemma keeps_getitem_mask: "keeps n (getitem_mask a keep) (\<lambda>a. n \<le> a)"
  unfolding getitem_mask_def by (rule keeps_then_do keeps_prims)+

lemma keeps_df_copy: "keeps n (df_copy a) (\<lambda>a. n \<le> a)"
  unfolding df_copy_def by (rule keeps_then_do keeps_prims)+

lemma keeps_df_empty: "keeps n (df_empty a) (\<lambda>x. True)"
  unfolding df_empty_def by (rule keeps_then_do keeps_prims TrueI)+

lemma keeps_setitem: "n \<le> a \<Longrightarrow> keeps n (setitem a c vs) (\<lambda>x. True)"
  unfolding setitem_def by (rule keeps_then_do keeps_prims | assumption)+

lemmas keeps_pandas =
  keeps_getitem_col keeps_getitem_cols keeps_getitem_mask keeps_df_copy keeps_df_empty
  keeps_setitem

lemma keeps_filter_by_date: "keeps n (filter_by_date df d) (\<lambda>a. n \<le> a)"
  unfolding filter_by_date_def by (rule keeps_then_do keeps_pandas keeps_prims)+

lemma keeps_filter_by_timestamp: "keeps n (filter_by_timestamp df d) (\<lambda>a. n \<le> a)"
  unfolding filter_by_timestamp_def by (rule keeps_then_do keeps_pandas keeps_prims)+

lemma keeps_add_color: "n \<le> a \<Longrightarrow> keeps n (add_color a) (\<lambda>x. True)"
  unfolding add_color_def by (rule keeps_then_do keeps_pandas keeps_prims | assumption)+

lemma keeps_view_state: "keeps n (view_state a) (\<lambda>x. True)"
  unfolding view_state_def by (rule keeps_then_do keeps_pandas keeps_prims TrueI)+

lemma keeps_pydeck_chart: "keeps n (pydeck_chart a kinds) (\<lambda>x. True)"
  unfolding pydeck_chart_def by (rule keeps_then_do keeps_view_state keeps_prims)+

lemma keeps_dataframe: "keeps n (dataframe a cs) (\<lambda>x. True)"
  unfolding dataframe_def by (rule keeps_then_do keeps_pandas keeps_prims)+

lemma keeps_statistics: "keeps n (statistics a title cs) (\<lambda>x. True)"
  unfolding statistics_def by (rule keeps_then_do keeps_pandas keeps_prims)+

lemma keeps_wind_tables: "keeps n (wind_tables a d) (\<lambda>x. True)"
  unfolding wind_tables_def by (rule keeps_then_do keeps_dataframe keeps_statistics keeps_prims)+

lemma keeps_add_wind_vectors: "n \<le> a \<Longrightarrow> keeps n (add_wind_vectors a) (\<lambda>x. True)"
  unfolding add_wind_vectors_def by (rule keeps_then_do keeps_pandas keeps_prims | assumption)+

lemma keeps_add_icon: "n \<le> a \<Longrightarrow> keeps n (add_icon a) (\<lambda>x. True)"
  unfolding add_icon_def by (rule keeps_then_do keeps_pandas keeps_prims | assumption)+

lemma keeps_add_arrows: "n \<le> a \<Longrightarrow> keeps n (add_arrows a) (\<lambda>x. True)"
  unfolding add_arrows_def by (rule keeps_then_do keeps_pandas keeps_prims | assumption)+

lemmas keeps_steps =
  keeps_filter_by_date keeps_filter_by_timestamp keeps_add_color keeps_pydeck_chart
  keeps_dataframe keeps_statistics keeps_wind_tables keeps_add_wind_vectors keeps_add_icon
  keeps_add_arrows

lemma keeps_app_pass: "keeps n (app_pass df d) (\<lambda>x. True)"
  unfolding app_pass_def
  by (rule keeps_then_do keeps_if keeps_steps keeps_pandas keeps_prims | assumption)+

lemma keeps_app_weather_pass: "keeps n (app_weather_pass df d) (\<lambda>x. True)"
  unfolding app_weather_pass_def
  by (rule keeps_then_do keeps_if keeps_steps keeps_pandas keeps_prims | assumption)+

lemma keeps_app_wind_pass: "keeps n (app_wind_pass df d) (\<lambda>x. True)"
  unfolding app_wind_pass_def
  by (rule keeps_then_do keeps_if keeps_steps keeps_pandas keeps_prims | assumption)+

lemma keeps_app_wind_icon_pass: "keeps n (app_wind_icon_pass df d) (\<lambda>x. True)"
  unfolding app_wind_icon_pass_def
  by (rule keeps_then_do keeps_if keeps_steps keeps_pandas keeps_prims | assumption)+

lemma keeps_app_wind_text_pass: "keeps n (app_wind_text_pass df d) (\<lambda>x. True)"
  unfolding app_wind_text_pass_def
  by (rule keeps_then_do keeps_if keeps_steps keeps_pandas keeps_prims | assumption)+

lemma keeps_app_wind_static_pass: "keeps n (app_wind_static_pass df d) (\<lambda>x. True)"
  unfolding app_wind_static_pass_def
  by (rule keeps_then_do keeps_if keeps_steps keeps_pandas keeps_prims | assumption)+

lemma keeps_run_pass: "keeps n (run_pass v df d) (\<lambda>x. True)"
  by (cases v)
    (simp_all add: keeps_app_pass keeps_app_weather_pass keeps_app_wind_pass
      keeps_app_wind_icon_pass keeps_app_wind_text_pass keeps_app_wind_static_pass)

text \<open>
  Claim C9. Whatever the variant, the selected date and the heap, and whether or not the
  pass ends with an exception, every frame that existed before the pass is the same
  after it; in particular the loaded dataset at \<open>df\<close>. New columns go to frames allocated
  during the pass.
\<close>

theorem pass_keeps_dataset:
  "take (length (heap w)) (heap (snd (run_pass v df selected_date w))) = heap w \<and>
   (df < length (heap w) \<longrightarrow> heap (snd (run_pass v df selected_date w)) ! df = heap w ! df)"
proof -
  obtain r w' where run: "run_pass v df selected_date w = (r, w')"
    by (cases "run_pass v df selected_date w")
  with keeps_run_pass [of "length (heap w)" v df selected_date]
  have t: "take (length (heap w)) (heap w') = heap w"
    by (auto simp: keeps_def)
  have "heap w' ! df = heap w ! df" if "df < length (heap w)"
    using that t by (metis nth_take)
  with t run show ?thesis by simp
qed

lemma arrow_sample: "arrow_from_direction (PyFloat (Fin (45 / 2))) = glyph_up_right"
  using arrow_half [where k = 0] by (simp add: dirs_def)

lemmas prog_defs =
  then_do_def returns_def lift_def frame_at_def new_frame_def store_frame_def st_def
  getitem_col_def getitem_mask_def getitem_cols_def df_copy_def setitem_def df_empty_def

lemmas step_defs =
  add_color_def view_state_def pydeck_chart_def dataframe_def statistics_def wind_tables_def
  add_wind_vectors_def add_icon_def add_arrows_def

lemmas frame_defs =
  column_def set_column_def frame_cols_def is_empty_def reset_index_def

lemma text_run:
  "\<exists>shown. run_pass App_wind_text 0 (july 3) sample_world =
     (Inr (),
      \<lparr>heap =
         [sample_df, frame_mask sample_df [False, True],
          set_column (set_column (set_column (frame_mask sample_df [False, True])
            ''color'' [PyList [PyInt 255, PyInt 0, PyInt 0]])
            ''arrow_char'' [PyStr glyph_up_right])
            ''text_size'' [PyFloat (Fin 20)]],
       screen = shown\<rparr>)"
  by (simp add: app_wind_text_pass_def sample_world_def sample_df_def july_def
      filter_by_date_def prog_defs step_defs frame_defs frame_mask_def
      ndvi_color_float literal_values arrow_sample
      cong: prod.case_cong_weak sum.case_cong_weak)

theorem pass_keeps_dataset_witness:
  "0 < length (heap sample_world) \<and>
   heap (snd (run_pass App_wind_text 0 (july 3) sample_world)) ! 0 = sample_df \<and>
   map fst (cols (heap (snd (run_pass App_wind_text 0 (july 3) sample_world)) ! 2)) =
     map fst (cols sample_df) @ [''color'', ''arrow_char'', ''text_size'']"
proof -
  from text_run obtain shown where
    "run_pass App_wind_text 0 (july 3) sample_world =
     (Inr (),
      \<lparr>heap =
         [sample_df, frame_mask sample_df [False, True],
          set_column (set_column (set_column (frame_mask sample_df [False, True])
            ''color'' [PyList [PyInt 255, PyInt 0, PyInt 0]])
            ''arrow_char'' [PyStr glyph_up_right])
            ''text_size'' [PyFloat (Fin 20)]],
       screen = shown\<rparr>)" ..
  then have "map fst (cols (heap (snd (run_pass App_wind_text 0 (july 3) sample_world)) ! 2)) =
     map fst (cols sample_df) @ [''color'', ''arrow_char'', ''text_size'']"
    by (simp add: set_column_def frame_mask_def sample_df_def)
  with pass_keeps_dataset [of sample_world App_wind_text 0 "july 3"] show ?thesis
    by (simp add: sample_world_def)
qed

end
